theory Spec2Isabelle
  imports Main
begin

section \<open>Values of a request body\<close>

text \<open>
  The handlers of \<^verbatim>\<open>backend/app.py\<close> read their arguments from a JSON object. A key of
  that object is absent (\<open>None\<close> below) or carries a value. Two kinds of value are
  modelled for a day count and an amount: an integer and \<^verbatim>\<open>null\<close>. Numbers with a
  fraction, strings, arrays and objects are outside the model, and an identifier that is
  present is an integer.
\<close>

datatype jval = JInt int | JNull

text \<open>Python's \<^verbatim>\<open>int(x)\<close>: the identity on an integer, \<^verbatim>\<open>TypeError\<close> on None.\<close>

fun py_int :: "jval \<Rightarrow> int option" where
  "py_int (JInt n) = Some n"
| "py_int JNull = None"

section \<open>Dates\<close>

text \<open>
  A \<^verbatim>\<open>datetime.date\<close> is modelled by its proleptic Gregorian ordinal
  (\<^verbatim>\<open>date.toordinal()\<close>): 1 is 0001-01-01 and 3652059 is 9999-12-31, the largest date.
  \<^verbatim>\<open>timedelta(days=n)\<close> raises \<^verbatim>\<open>OverflowError\<close> when \<open>n\<close> has a magnitude
  above 999999999, and so does adding a timedelta to a date when the sum is not a date.
\<close>

type_synonym date = int

definition date_min :: int where
  "date_min = 1"

definition date_max :: int where
  "date_max = 3652059"

definition timedelta :: "int \<Rightarrow> int option" where
  "timedelta n = (if - 999999999 \<le> n \<and> n \<le> 999999999 then Some n else None)"

definition date_add :: "date \<Rightarrow> int \<Rightarrow> date option" where
  "date_add d t = (if date_min \<le> d + t \<and> d + t \<le> date_max then Some (d + t) else None)"

section \<open>Tables\<close>

text \<open>
  A table is the list of its rows. Of the \<^verbatim>\<open>books\<close> table only the columns that the
  borrowing handlers read or write are kept. Status columns hold the strings that the
  handlers compare and store.
\<close>

record reader =
  reader_id :: int
  reader_name :: string
  gender :: string
  phone :: string
  email :: string
  address :: string
  reader_status :: string
  max_borrow_count :: int

record book =
  book_id :: int
  book_status :: string

record borrow =
  borrow_id :: int
  b_reader_id :: int
  b_book_id :: int
  borrow_date :: date
  due_date :: date
  return_date :: "date option"
  renew_count :: "int option"
  fine_amount :: "int option"
  borrow_status :: string
  borrow_notes :: string

datatype log_action =
  LogCreateBorrow | LogReturnBook | LogRenewBook | LogApplyFine
  | LogUpdateBorrowStatus | LogUpdateReader

record log_entry =
  action :: log_action
  target_type :: string
  target_id :: int

text \<open>
  The schema script \<^verbatim>\<open>create_database.sql\<close> is not part of the sources. What the
  handlers need from it is kept as data of the database: the \<^verbatim>\<open>AUTO_INCREMENT\<close>
  counter of \<^verbatim>\<open>borrows\<close> and the defaults of the three columns of \<^verbatim>\<open>borrows\<close> that the
  \<^verbatim>\<open>INSERT\<close> of \<open>create_borrow\<close> does not name.
\<close>

record db =
  readers :: "reader list"
  books :: "book list"
  borrows :: "borrow list"
  system_logs :: "log_entry list"
  next_borrow_id :: int
  dflt_return_date :: "date option"
  dflt_renew_count :: "int option"
  dflt_fine_amount :: "int option"

section \<open>Responses\<close>

text \<open>
  A handler answers with a status code and a JSON body. An error answer is the pair of
  its code and its message, one constructor for each message text of the source.
\<close>

datatype err =
  MissingField string
  | ReaderNotExist
  | ReaderStatusAbnormal
  | BookNotExist
  | BookLost
  | BookBorrowed
  | BorrowLimitReached
  | DbConnectFailed
  | CreateBorrowFailed
  | BorrowNotFoundOrReturned
  | RenewDaysInvalid
  | RenewLimitReached
  | RenewFailed
  | FineAmountInvalid
  | BorrowNotExist
  | FineUpdateFailed
  | MissingStatus
  | InvalidStatus
  | StatusUpdateFailed
  | NoUpdateFields
  | ReaderUpdateFailed

datatype payload =
  Created int
  | Returned
  | Renewed date int
  | Fined int
  | StatusUpdated
  | ReaderUpdated

type_synonym response = "(nat \<times> err) + payload"

section \<open>Storage calls\<close>

text \<open>
  Every storage call can fail: \<open>get_db_connection\<close> returns None when the connection
  fails, \<open>execute_query\<close> returns None when the connection or the statement fails, and a
  statement or a commit on a cursor raises. A handler makes its storage calls in a fixed
  order; the argument \<open>F\<close> of a handler is the set of positions, counted from 0, of the
  calls that fail while it runs.

  \<open>execute_query\<close> with \<^verbatim>\<open>fetch=True\<close> returns the rows, or None on failure.
\<close>

definition execute_query :: "nat set \<Rightarrow> nat \<Rightarrow> 'a list \<Rightarrow> 'a list option" where
  "execute_query F k rows = (if k \<in> F then None else Some rows)"

text \<open>
  \<open>execute_query\<close> with \<^verbatim>\<open>fetch=False\<close> executes and commits a write on a connection
  of its own. On failure it prints the exception and returns None, and nothing is
  written. The boolean tells whether the result is not None.
\<close>

definition execute_write :: "nat set \<Rightarrow> nat \<Rightarrow> (db \<Rightarrow> db) \<Rightarrow> db \<Rightarrow> bool \<times> db" where
  "execute_write F k upd d = (if k \<in> F then (False, d) else (True, upd d))"

definition log_operation :: "nat set \<Rightarrow> nat \<Rightarrow> log_action \<Rightarrow> string \<Rightarrow> int \<Rightarrow> db \<Rightarrow> db" where
  "log_operation F k a ty i d =
     snd (execute_write F k
       (\<lambda>d. d\<lparr>system_logs := system_logs d @ [\<lparr>action = a, target_type = ty, target_id = i\<rparr>]\<rparr>) d)"

subsection \<open>Statements\<close>

text \<open>\<^verbatim>\<open>SELECT id, status, max_borrow_count FROM readers WHERE id = %s\<close>\<close>

definition select_reader :: "int \<Rightarrow> db \<Rightarrow> reader list" where
  "select_reader i d = filter (\<lambda>r. reader_id r = i) (readers d)"

text \<open>\<^verbatim>\<open>SELECT id, status FROM books WHERE id = %s\<close>\<close>

definition select_book :: "int \<Rightarrow> db \<Rightarrow> book list" where
  "select_book i d = filter (\<lambda>b. book_id b = i) (books d)"

text \<open>\<^verbatim>\<open>SELECT COUNT(*) as count FROM borrows WHERE reader_id = %s AND status = 'borrowed'\<close>\<close>

definition count_borrowed :: "int \<Rightarrow> db \<Rightarrow> int" where
  "count_borrowed i d =
     int (length (filter (\<lambda>b. b_reader_id b = i \<and> borrow_status b = ''borrowed'') (borrows d)))"

text \<open>\<^verbatim>\<open>SELECT * FROM borrows WHERE id = %s AND status = 'borrowed'\<close>\<close>

definition select_borrowed :: "int \<Rightarrow> db \<Rightarrow> borrow list" where
  "select_borrowed i d =
     filter (\<lambda>b. borrow_id b = i \<and> borrow_status b = ''borrowed'') (borrows d)"

text \<open>\<^verbatim>\<open>SELECT * FROM borrows WHERE id = %s\<close>\<close>

definition select_borrow :: "int \<Rightarrow> db \<Rightarrow> borrow list" where
  "select_borrow i d = filter (\<lambda>b. borrow_id b = i) (borrows d)"

text \<open>\<^verbatim>\<open>INSERT INTO borrows (reader_id, book_id, borrow_date, due_date, status, notes)
  VALUES (%s, %s, %s, %s, 'borrowed', %s)\<close>\<close>

definition insert_borrow :: "int \<Rightarrow> int \<Rightarrow> date \<Rightarrow> date \<Rightarrow> string \<Rightarrow> db \<Rightarrow> db" where
  "insert_borrow rid bid bd dd n d =
     d\<lparr>borrows := borrows d @
          [\<lparr>borrow_id = next_borrow_id d, b_reader_id = rid, b_book_id = bid,
            borrow_date = bd, due_date = dd, return_date = dflt_return_date d,
            renew_count = dflt_renew_count d, fine_amount = dflt_fine_amount d,
            borrow_status = ''borrowed'', borrow_notes = n\<rparr>],
       next_borrow_id := next_borrow_id d + 1\<rparr>"

text \<open>\<^verbatim>\<open>UPDATE books SET status = s WHERE id = %s\<close>\<close>

definition update_book_status :: "int \<Rightarrow> string \<Rightarrow> db \<Rightarrow> db" where
  "update_book_status i s d =
     d\<lparr>books := map (\<lambda>b. if book_id b = i then b\<lparr>book_status := s\<rparr> else b) (books d)\<rparr>"

text \<open>\<^verbatim>\<open>UPDATE borrows SET status = 'returned', return_date = %s WHERE id = %s\<close>\<close>

definition update_borrow_returned :: "int \<Rightarrow> date \<Rightarrow> db \<Rightarrow> db" where
  "update_borrow_returned i today d =
     d\<lparr>borrows := map (\<lambda>b. if borrow_id b = i
                            then b\<lparr>borrow_status := ''returned'', return_date := Some today\<rparr>
                            else b) (borrows d)\<rparr>"

text \<open>\<^verbatim>\<open>UPDATE borrows SET due_date = %s, renew_count = COALESCE(renew_count, 0) + 1
  WHERE id = %s\<close>\<close>

definition update_borrow_renewed :: "int \<Rightarrow> date \<Rightarrow> db \<Rightarrow> db" where
  "update_borrow_renewed i nd d =
     d\<lparr>borrows := map (\<lambda>b. if borrow_id b = i
                            then b\<lparr>due_date := nd,
                                   renew_count := Some ((case renew_count b of None \<Rightarrow> 0 | Some c \<Rightarrow> c) + 1)\<rparr>
                            else b) (borrows d)\<rparr>"

text \<open>\<^verbatim>\<open>UPDATE borrows SET fine_amount = %s, status = 'fined' WHERE id = %s\<close>\<close>

definition update_borrow_fined :: "int \<Rightarrow> int \<Rightarrow> db \<Rightarrow> db" where
  "update_borrow_fined i a d =
     d\<lparr>borrows := map (\<lambda>b. if borrow_id b = i
                            then b\<lparr>fine_amount := Some a, borrow_status := ''fined''\<rparr>
                            else b) (borrows d)\<rparr>"

text \<open>\<^verbatim>\<open>UPDATE borrows SET status = %s WHERE id = %s\<close>\<close>

definition update_borrow_status_row :: "int \<Rightarrow> string \<Rightarrow> db \<Rightarrow> db" where
  "update_borrow_status_row i s d =
     d\<lparr>borrows := map (\<lambda>b. if borrow_id b = i then b\<lparr>borrow_status := s\<rparr> else b) (borrows d)\<rparr>"

text \<open>\<^verbatim>\<open>UPDATE readers SET ... WHERE id = %s\<close>, with one assignment for each key that
  the request carries.\<close>

record reader_update =
  upd_name :: "string option"
  upd_gender :: "string option"
  upd_phone :: "string option"
  upd_email :: "string option"
  upd_address :: "string option"
  upd_max_borrow_count :: "int option"

definition set_fields :: "reader_update \<Rightarrow> reader \<Rightarrow> reader" where
  "set_fields u r =
     r\<lparr>reader_name := (case upd_name u of None \<Rightarrow> reader_name r | Some v \<Rightarrow> v),
       gender := (case upd_gender u of None \<Rightarrow> gender r | Some v \<Rightarrow> v),
       phone := (case upd_phone u of None \<Rightarrow> phone r | Some v \<Rightarrow> v),
       email := (case upd_email u of None \<Rightarrow> email r | Some v \<Rightarrow> v),
       address := (case upd_address u of None \<Rightarrow> address r | Some v \<Rightarrow> v),
       max_borrow_count :=
         (case upd_max_borrow_count u of None \<Rightarrow> max_borrow_count r | Some v \<Rightarrow> v)\<rparr>"

definition update_reader_row :: "int \<Rightarrow> reader_update \<Rightarrow> db \<Rightarrow> db" where
  "update_reader_row i u d =
     d\<lparr>readers := map (\<lambda>r. if reader_id r = i then set_fields u r else r) (readers d)\<rparr>"

section \<open>The handlers\<close>

subsection \<open>create_borrow\<close>

record borrow_request =
  req_reader_id :: "int option"
  req_book_id :: "int option"
  req_borrow_days :: "jval option"
  req_notes :: "string option"

text \<open>
  The transaction of \<open>create_borrow\<close>. Its storage calls are the connection (3), the
  insert (4), the update of the book (5) and the commit (6); the log entry (7) is written
  after the commit. An exception of a statement or of the commit reaches the handler that
  rolls back, so the database is the one before the transaction.
\<close>

definition create_borrow_transaction ::
  "int \<Rightarrow> int \<Rightarrow> date \<Rightarrow> date \<Rightarrow> string \<Rightarrow> nat set \<Rightarrow> db \<Rightarrow> response \<times> db" where
  "create_borrow_transaction rid bid bd dd n F d =
     (if 3 \<in> F then (Inl (500, DbConnectFailed), d)
      else if 4 \<in> F then (Inl (500, CreateBorrowFailed), d)
      else
        let d1 = insert_borrow rid bid bd dd n d;
            new_id = next_borrow_id d
        in if 5 \<in> F then (Inl (500, CreateBorrowFailed), d)
           else
             let d2 = update_book_status bid ''borrowed'' d1
             in if 6 \<in> F then (Inl (500, CreateBorrowFailed), d)
                else (Inr (Created new_id),
                      log_operation F 7 LogCreateBorrow ''borrow'' new_id d2))"

text \<open>
  The storage calls before the transaction are the three reads: the reader (0), the book
  (1) and the count of the reader's borrowed records (2). A read that fails gives None,
  which the handler tests like an empty result. The due date is computed after the
  checks; an exception there is caught by the outer handler, which answers 500.
\<close>

definition create_borrow :: "borrow_request \<Rightarrow> date \<Rightarrow> nat set \<Rightarrow> db \<Rightarrow> response \<times> db" where
  "create_borrow data today F d =
     (case req_reader_id data of
        None \<Rightarrow> (Inl (400, MissingField ''reader_id''), d)
      | Some rid \<Rightarrow>
     (case req_book_id data of
        None \<Rightarrow> (Inl (400, MissingField ''book_id''), d)
      | Some bid \<Rightarrow>
     (case req_borrow_days data of
        None \<Rightarrow> (Inl (400, MissingField ''borrow_days''), d)
      | Some days \<Rightarrow>
     (case execute_query F 0 (select_reader rid d) of
        Some (reader # _) \<Rightarrow>
          if reader_status reader \<noteq> ''active'' then (Inl (400, ReaderStatusAbnormal), d)
          else
            (case execute_query F 1 (select_book bid d) of
               Some (book # _) \<Rightarrow>
                 if book_status book = ''lost'' then (Inl (400, BookLost), d)
                 else if book_status book = ''borrowed'' then (Inl (400, BookBorrowed), d)
                 else if (case execute_query F 2 [count_borrowed rid d] of
                            Some (c # _) \<Rightarrow> c \<ge> max_borrow_count reader
                          | _ \<Rightarrow> False)
                 then (Inl (400, BorrowLimitReached), d)
                 else
                   (case py_int days of
                      None \<Rightarrow> (Inl (500, CreateBorrowFailed), d)
                    | Some n \<Rightarrow>
                   (case timedelta n of
                      None \<Rightarrow> (Inl (500, CreateBorrowFailed), d)
                    | Some t \<Rightarrow>
                   (case date_add today t of
                      None \<Rightarrow> (Inl (500, CreateBorrowFailed), d)
                    | Some due \<Rightarrow>
                        create_borrow_transaction rid bid today due
                          (case req_notes data of None \<Rightarrow> [] | Some n \<Rightarrow> n) F d)))
             | _ \<Rightarrow> (Inl (400, BookNotExist), d))
      | _ \<Rightarrow> (Inl (400, ReaderNotExist), d)))))"

subsection \<open>return_book\<close>

text \<open>
  The storage calls are the read of the borrowed record (0), the update of the record
  (1), the update of the book (2) and the log entry (3). Each of the two updates is an
  \<open>execute_query\<close> of its own, whose result the handler does not look at.
\<close>

definition return_book :: "int \<Rightarrow> date \<Rightarrow> nat set \<Rightarrow> db \<Rightarrow> response \<times> db" where
  "return_book bid today F d =
     (case execute_query F 0 (select_borrowed bid d) of
        Some (borrow # _) \<Rightarrow>
          let d1 = snd (execute_write F 1 (update_borrow_returned bid today) d);
              d2 = snd (execute_write F 2 (update_book_status (b_book_id borrow) ''available'') d1)
          in (Inr Returned, log_operation F 3 LogReturnBook ''borrow'' bid d2)
      | _ \<Rightarrow> (Inl (404, BorrowNotFoundOrReturned), d))"

subsection \<open>renew_book\<close>

record renew_request =
  req_days :: "jval option"

text \<open>
  The storage calls are the read of the borrowed record (0), the update (1) and the log
  entry (2). A record whose \<^verbatim>\<open>renew_count\<close> is NULL makes the comparison with 2 raise,
  and so does a new due date after the largest date; the handler answers 500 to both.
\<close>

definition renew_book :: "int \<Rightarrow> renew_request \<Rightarrow> nat set \<Rightarrow> db \<Rightarrow> response \<times> db" where
  "renew_book bid data F d =
     (case (case req_days data of None \<Rightarrow> JInt 30 | Some v \<Rightarrow> v) of
        JNull \<Rightarrow> (Inl (400, RenewDaysInvalid), d)
      | JInt extend_days \<Rightarrow>
          if extend_days < 1 \<or> extend_days > 90 then (Inl (400, RenewDaysInvalid), d)
          else
            (case execute_query F 0 (select_borrowed bid d) of
               Some (borrow # _) \<Rightarrow>
                 (case renew_count borrow of
                    None \<Rightarrow> (Inl (500, RenewFailed), d)
                  | Some c \<Rightarrow>
                      if c \<ge> 2 then (Inl (400, RenewLimitReached), d)
                      else
                        (case timedelta extend_days of
                           None \<Rightarrow> (Inl (500, RenewFailed), d)
                         | Some t \<Rightarrow>
                        (case date_add (due_date borrow) t of
                           None \<Rightarrow> (Inl (500, RenewFailed), d)
                         | Some new_due_date \<Rightarrow>
                             let d1 = snd (execute_write F 1
                                             (update_borrow_renewed bid new_due_date) d)
                             in (Inr (Renewed new_due_date extend_days),
                                 log_operation F 2 LogRenewBook ''borrow'' bid d1))))
             | _ \<Rightarrow> (Inl (404, BorrowNotFoundOrReturned), d)))"

subsection \<open>apply_fine\<close>

record fine_request =
  req_fine_amount :: "jval option"

text \<open>The storage calls are the read of the record (0), the update (1) and the log
  entry (2).\<close>

definition apply_fine :: "int \<Rightarrow> fine_request \<Rightarrow> nat set \<Rightarrow> db \<Rightarrow> response \<times> db" where
  "apply_fine bid data F d =
     (case req_fine_amount data of
        None \<Rightarrow> (Inl (400, FineAmountInvalid), d)
      | Some JNull \<Rightarrow> (Inl (400, FineAmountInvalid), d)
      | Some (JInt fine) \<Rightarrow>
          if fine = 0 \<or> fine \<le> 0 then (Inl (400, FineAmountInvalid), d)
          else
            (case execute_query F 0 (select_borrow bid d) of
               Some (borrow # _) \<Rightarrow>
                 (case execute_write F 1 (update_borrow_fined bid fine) d of
                    (False, _) \<Rightarrow> (Inl (500, FineUpdateFailed), d)
                  | (True, d1) \<Rightarrow>
                      (Inr (Fined fine), log_operation F 2 LogApplyFine ''borrow'' bid d1))
             | _ \<Rightarrow> (Inl (404, BorrowNotExist), d)))"

subsection \<open>update_borrow_status\<close>

record status_request =
  req_status :: "string option"

definition valid_statuses :: "string list" where
  "valid_statuses = [''borrowed'', ''returned'', ''reserved'', ''damaged'', ''lost'']"

text \<open>
  The storage calls are the read of the record (0), the connection (1), the update of the
  record (2), the update of the book (3, made for the statuses lost, damaged and
  returned), the commit (4) and the log entry (5). The two updates and the commit are one
  transaction, rolled back when one of them raises.
\<close>

definition update_borrow_status ::
  "int \<Rightarrow> status_request \<Rightarrow> date \<Rightarrow> nat set \<Rightarrow> db \<Rightarrow> response \<times> db" where
  "update_borrow_status bid data today F d =
     (case req_status data of
        None \<Rightarrow> (Inl (400, MissingStatus), d)
      | Some status \<Rightarrow>
          if status \<notin> set valid_statuses then (Inl (400, InvalidStatus), d)
          else
            (case execute_query F 0 (select_borrow bid d) of
               Some (existing # _) \<Rightarrow>
                 let book = b_book_id existing
                 in if 1 \<in> F then (Inl (500, DbConnectFailed), d)
                    else if 2 \<in> F then (Inl (500, StatusUpdateFailed), d)
                    else
                      let d1 = (if status = ''returned''
                                then update_borrow_returned bid today d
                                else update_borrow_status_row bid status d)
                      in if status \<in> {''lost'', ''damaged'', ''returned''} \<and> 3 \<in> F
                         then (Inl (500, StatusUpdateFailed), d)
                         else
                           let d2 = (if status = ''lost''
                                     then update_book_status book ''lost'' d1
                                     else if status = ''damaged''
                                     then update_book_status book ''damaged'' d1
                                     else if status = ''returned''
                                     then update_book_status book ''available'' d1
                                     else d1)
                           in if 4 \<in> F then (Inl (500, StatusUpdateFailed), d)
                              else (Inr StatusUpdated,
                                    log_operation F 5 LogUpdateBorrowStatus ''borrow'' bid d2)
             | _ \<Rightarrow> (Inl (404, BorrowNotExist), d)))"

subsection \<open>update_reader\<close>

text \<open>The storage calls are the read of the reader (0), the update (1) and the log
  entry (2).\<close>

definition no_fields :: "reader_update \<Rightarrow> bool" where
  "no_fields u =
     (upd_name u = None \<and> upd_gender u = None \<and> upd_phone u = None \<and> upd_email u = None
      \<and> upd_address u = None \<and> upd_max_borrow_count u = None)"

definition update_reader :: "int \<Rightarrow> reader_update \<Rightarrow> nat set \<Rightarrow> db \<Rightarrow> response \<times> db" where
  "update_reader rid data F d =
     (case execute_query F 0 (select_reader rid d) of
        Some (existing # _) \<Rightarrow>
          if no_fields data then (Inl (400, NoUpdateFields), d)
          else
            (case execute_write F 1 (update_reader_row rid data) d of
               (False, _) \<Rightarrow> (Inl (500, ReaderUpdateFailed), d)
             | (True, d1) \<Rightarrow>
                 (Inr ReaderUpdated, log_operation F 2 LogUpdateReader ''reader'' rid d1))
      | _ \<Rightarrow> (Inl (404, ReaderNotExist), d))"

section \<open>A sample database\<close>

text \<open>
  One active reader with a limit of 3, four books (available, borrowed, damaged, lost) and
  one borrowed record, number 5, of book 2, due on 2024-01-10 (ordinal 738895).
\<close>

definition sample_reader :: reader where
  "sample_reader =
     \<lparr>reader_id = 1, reader_name = ''R'', gender = ''F'', phone = ''555'', email = [],
      address = [], reader_status = ''active'', max_borrow_count = 3\<rparr>"

definition sample_borrow :: borrow where
  "sample_borrow =
     \<lparr>borrow_id = 5, b_reader_id = 1, b_book_id = 2, borrow_date = 738865,
      due_date = 738895, return_date = None, renew_count = Some 0, fine_amount = None,
      borrow_status = ''borrowed'', borrow_notes = []\<rparr>"

definition sample_db :: db where
  "sample_db =
     \<lparr>readers = [sample_reader],
      books = [\<lparr>book_id = 1, book_status = ''available''\<rparr>,
               \<lparr>book_id = 2, book_status = ''borrowed''\<rparr>,
               \<lparr>book_id = 3, book_status = ''damaged''\<rparr>,
               \<lparr>book_id = 4, book_status = ''lost''\<rparr>],
      borrows = [sample_borrow],
      system_logs = [],
      next_borrow_id = 6,
      dflt_return_date = None, dflt_renew_count = Some 0, dflt_fine_amount = None\<rparr>"

definition sample_request :: "int \<Rightarrow> int \<Rightarrow> borrow_request" where
  "sample_request bid n =
     \<lparr>req_reader_id = Some 1, req_book_id = Some bid, req_borrow_days = Some (JInt n),
      req_notes = None\<rparr>"

text \<open>The sample database after two renewals of record 5 by 30 days.\<close>

definition twice_renewed_db :: db where
  "twice_renewed_db =
     snd (renew_book 5 \<lparr>req_days = Some (JInt 30)\<rparr> {}
       (snd (renew_book 5 \<lparr>req_days = Some (JInt 30)\<rparr> {} sample_db)))"

section \<open>The eligibility checker in the words of the specification\<close>

text \<open>
  Section 4.1 of the specification gives the rules in order, the first failure winning:
  the reader must exist and be active, else \<^verbatim>\<open>ReaderNotEligible\<close>; the book must exist,
  else \<^verbatim>\<open>BookNotFound\<close>; its status must not be lost, else \<^verbatim>\<open>BookLost\<close>; nor borrowed,
  else \<^verbatim>\<open>BookUnavailable\<close>; the reader's count of borrowed records must be strictly
  below \<open>max_borrow_count\<close>, else \<^verbatim>\<open>BorrowLimitReached\<close>. \<open>spec_can_borrow\<close> is written
  from these words, not from the source; \<open>reason_of\<close> names the reason that each error
  message of \<open>create_borrow\<close> stands for.
\<close>

datatype reason =
  ReaderNotEligible | BookNotFound | BookIsLost | BookUnavailable | LimitReached

definition spec_can_borrow :: "reader option \<Rightarrow> book option \<Rightarrow> int \<Rightarrow> reason option" where
  "spec_can_borrow r b active_count =
     (case r of
        None \<Rightarrow> Some ReaderNotEligible
      | Some r \<Rightarrow>
          if reader_status r \<noteq> ''active'' then Some ReaderNotEligible
          else
            (case b of
               None \<Rightarrow> Some BookNotFound
             | Some b \<Rightarrow>
                 if book_status b = ''lost'' then Some BookIsLost
                 else if book_status b = ''borrowed'' then Some BookUnavailable
                 else if \<not> active_count < max_borrow_count r then Some LimitReached
                 else None))"

fun reason_of :: "err \<Rightarrow> reason option" where
  "reason_of ReaderNotExist = Some ReaderNotEligible"
| "reason_of ReaderStatusAbnormal = Some ReaderNotEligible"
| "reason_of BookNotExist = Some BookNotFound"
| "reason_of BookLost = Some BookIsLost"
| "reason_of BookBorrowed = Some BookUnavailable"
| "reason_of BorrowLimitReached = Some LimitReached"
| "reason_of _ = None"

text \<open>The first row of a result, when there is one.\<close>

definition first_row :: "'a list \<Rightarrow> 'a option" where
  "first_row rows = (case rows of [] \<Rightarrow> None | row # _ \<Rightarrow> Some row)"

text \<open>The sample database with three borrowed records of reader 1, whose limit is 3.\<close>

definition limit_db :: db where
  "limit_db =
     sample_db\<lparr>borrows :=
       [sample_borrow,
        sample_borrow\<lparr>borrow_id := 6, b_book_id := 7\<rparr>,
        sample_borrow\<lparr>borrow_id := 7, b_book_id := 8\<rparr>]\<rparr>"

section \<open>The borrowing limit\<close>

text \<open>Every reader has at most \<open>max_borrow_count\<close> records with status borrowed.\<close>

definition limit_inv :: "db \<Rightarrow> bool" where
  "limit_inv d =
     (\<forall>r \<in> set (readers d). count_borrowed (reader_id r) d \<le> max_borrow_count r)"

text \<open>The limit together with the key of \<^verbatim>\<open>readers\<close>: no two rows have the same id.\<close>

definition within_limits :: "db \<Rightarrow> bool" where
  "within_limits d = (distinct (map reader_id (readers d)) \<and> limit_inv d)"

text \<open>The step from \<open>d\<close> to \<open>d'\<close> keeps the readers and gives no reader more borrowed
  records.\<close>

definition no_more_borrowed :: "db \<Rightarrow> db \<Rightarrow> bool" where
  "no_more_borrowed d d' =
     (readers d' = readers d \<and> (\<forall>i. count_borrowed i d' \<le> count_borrowed i d))"

text \<open>Two requests to \<open>update_reader\<close> that carry the key \<^verbatim>\<open>max_borrow_count\<close> only.\<close>

definition raise_limit :: reader_update where
  "raise_limit =
     \<lparr>upd_name = None, upd_gender = None, upd_phone = None, upd_email = None,
      upd_address = None, upd_max_borrow_count = Some 5\<rparr>"

definition lower_limit :: reader_update where
  "lower_limit =
     \<lparr>upd_name = None, upd_gender = None, upd_phone = None, upd_email = None,
      upd_address = None, upd_max_borrow_count = Some 0\<rparr>"

section \<open>Properties\<close>

subsection \<open>Shape of the answers of create_borrow\<close>

lemma create_borrow_transaction_failure:
  "fst (create_borrow_transaction rid bid bd dd n F d) = Inl e \<Longrightarrow>
   snd (create_borrow_transaction rid bid bd dd n F d) = d"
  by (simp add: create_borrow_transaction_def Let_def split: if_splits)

lemma create_borrow_transaction_success:
  "create_borrow_transaction rid bid bd dd n F d = (Inr p, d') \<longleftrightarrow>
     F \<inter> {3, 4, 5, 6} = {} \<and> p = Created (next_borrow_id d) \<and>
     d' = log_operation F 7 LogCreateBorrow ''borrow'' (next_borrow_id d)
            (update_book_status bid ''borrowed'' (insert_borrow rid bid bd dd n d))"
  by (auto simp: create_borrow_transaction_def Let_def)

lemma create_borrow_cases:
  "(\<exists>e. create_borrow data today F d = (Inl e, d)) \<or>
   (\<exists>rid bid due n. create_borrow data today F d = create_borrow_transaction rid bid today due n F d)"
  unfolding create_borrow_def
  by (simp split: option.split list.split) blast

lemma create_borrow_success:
  "create_borrow data today F d = (Inr p, d') \<longrightarrow>
     (\<exists>rid bid days n t due r rs b bs.
        req_reader_id data = Some rid \<and> req_book_id data = Some bid \<and>
        req_borrow_days data = Some days \<and>
        execute_query F 0 (select_reader rid d) = Some (r # rs) \<and>
        reader_status r = ''active'' \<and>
        execute_query F 1 (select_book bid d) = Some (b # bs) \<and>
        book_status b \<noteq> ''lost'' \<and> book_status b \<noteq> ''borrowed'' \<and>
        (2 \<notin> F \<longrightarrow> count_borrowed rid d < max_borrow_count r) \<and>
        py_int days = Some n \<and> timedelta n = Some t \<and> date_add today t = Some due \<and>
        create_borrow_transaction rid bid today due
          (case req_notes data of None \<Rightarrow> [] | Some s \<Rightarrow> s) F d = (Inr p, d'))"
  unfolding create_borrow_def
  by (simp split: option.split list.split add: execute_query_def)


lemma create_borrow_no_fault:
  assumes "req_reader_id data = Some rid" and "req_book_id data = Some bid"
    and "req_borrow_days data = Some (JInt n)"
    and "select_reader rid d = r # rs" and "reader_status r = ''active''"
    and "select_book bid d = b # bs"
    and "book_status b \<noteq> ''lost''" and "book_status b \<noteq> ''borrowed''"
    and "count_borrowed rid d < max_borrow_count r"
    and "0 \<notin> F" and "1 \<notin> F"
    and "- 999999999 \<le> n" and "n \<le> 999999999"
    and "date_min \<le> today + n" and "today + n \<le> date_max"
  shows "create_borrow data today F d =
           create_borrow_transaction rid bid today (today + n)
             (case req_notes data of None \<Rightarrow> [] | Some s \<Rightarrow> s) F d"
  using assms
  by (simp add: create_borrow_def execute_query_def timedelta_def date_add_def)

text \<open>
  Claim C1. For a request that passes every check (the reader exists and is active, the
  book exists and is neither lost nor borrowed, the reader has fewer borrowed records than
  \<open>max_borrow_count\<close>, \<open>borrow_days\<close> is a positive integer), \<open>create_borrow\<close>
  answers with the new identifier when no storage call of the reads and of the
  transaction fails and the due date is a date. Whenever it answers with an identifier,
  the new record (status borrowed, due date today + borrow_days) is in \<^verbatim>\<open>borrows\<close> and the
  book is borrowed; whenever it answers with an error, whichever storage call failed, the
  database is the one before the call: the two writes persist together or not at all.
\<close>

theorem create_borrow_eligible:
  assumes fields: "req_reader_id data = Some rid" "req_book_id data = Some bid"
      "req_borrow_days data = Some (JInt n)"
    and days: "0 < n"
    and reader: "select_reader rid d = r # rs" "reader_status r = ''active''"
    and book: "select_book bid d = b # bs"
      "book_status b \<noteq> ''lost''" "book_status b \<noteq> ''borrowed''"
    and limit: "count_borrowed rid d < max_borrow_count r"
  shows
    "(F \<inter> {0, 1, 2, 3, 4, 5, 6} = {} \<and> date_min \<le> today \<and> today + n \<le> date_max \<longrightarrow>
        fst (create_borrow data today F d) = Inr (Created (next_borrow_id d))) \<and>
     (\<forall>p. fst (create_borrow data today F d) = Inr p \<longrightarrow>
        p = Created (next_borrow_id d) \<and>
        borrows (snd (create_borrow data today F d)) =
          borrows d @
            [\<lparr>borrow_id = next_borrow_id d, b_reader_id = rid, b_book_id = bid,
              borrow_date = today, due_date = today + n,
              return_date = dflt_return_date d, renew_count = dflt_renew_count d,
              fine_amount = dflt_fine_amount d, borrow_status = ''borrowed'',
              borrow_notes = (case req_notes data of None \<Rightarrow> [] | Some s \<Rightarrow> s)\<rparr>] \<and>
        books (snd (create_borrow data today F d)) =
          map (\<lambda>x. if book_id x = bid then x\<lparr>book_status := ''borrowed''\<rparr> else x) (books d) \<and>
        readers (snd (create_borrow data today F d)) = readers d) \<and>
     (\<forall>e. fst (create_borrow data today F d) = Inl e \<longrightarrow>
        snd (create_borrow data today F d) = d)"
proof (intro conjI allI impI)
  assume a: "F \<inter> {0, 1, 2, 3, 4, 5, 6} = {} \<and> date_min \<le> today \<and> today + n \<le> date_max"
  then have "create_borrow data today F d =
      create_borrow_transaction rid bid today (today + n)
        (case req_notes data of None \<Rightarrow> [] | Some s \<Rightarrow> s) F d"
    using assms by (intro create_borrow_no_fault) (simp_all add: date_min_def date_max_def)
  with a show "fst (create_borrow data today F d) = Inr (Created (next_borrow_id d))"
    by (simp add: create_borrow_transaction_def Let_def)
next
  fix p
  assume s: "fst (create_borrow data today F d) = Inr p"
  let ?d = "snd (create_borrow data today F d)"
  have "create_borrow data today F d = (Inr p, ?d)"
    using s by (simp add: prod_eq_iff)
  then obtain t due where
    t: "timedelta n = Some t" "date_add today t = Some due"
    and tx: "create_borrow_transaction rid bid today due
          (case req_notes data of None \<Rightarrow> [] | Some s \<Rightarrow> s) F d = (Inr p, ?d)"
    using create_borrow_success [of data today F d p ?d] fields by auto
  have due: "due = today + n"
    using t by (auto simp: timedelta_def date_add_def split: if_splits)
  have p: "p = Created (next_borrow_id d)"
    and d: "?d = log_operation F 7 LogCreateBorrow ''borrow'' (next_borrow_id d)
            (update_book_status bid ''borrowed'' (insert_borrow rid bid today due
              (case req_notes data of None \<Rightarrow> [] | Some s \<Rightarrow> s) d))"
    using tx by (simp_all add: create_borrow_transaction_success)
  show "p = Created (next_borrow_id d)" by (rule p)
  show "borrows ?d = borrows d @
            [\<lparr>borrow_id = next_borrow_id d, b_reader_id = rid, b_book_id = bid,
              borrow_date = today, due_date = today + n,
              return_date = dflt_return_date d, renew_count = dflt_renew_count d,
              fine_amount = dflt_fine_amount d, borrow_status = ''borrowed'',
              borrow_notes = (case req_notes data of None \<Rightarrow> [] | Some s \<Rightarrow> s)\<rparr>]"
    by (subst d) (simp add: log_operation_def execute_write_def update_book_status_def
        insert_borrow_def due)
  show "books ?d =
          map (\<lambda>x. if book_id x = bid then x\<lparr>book_status := ''borrowed''\<rparr> else x) (books d)"
    by (subst d) (simp add: log_operation_def execute_write_def update_book_status_def
        insert_borrow_def)
  show "readers ?d = readers d"
    by (subst d) (simp add: log_operation_def execute_write_def update_book_status_def
        insert_borrow_def)
next
  fix e
  assume "fst (create_borrow data today F d) = Inl e"
  then show "snd (create_borrow data today F d) = d"
    using create_borrow_cases [of data today F d]
    by (auto simp: create_borrow_transaction_failure)
qed


subsection \<open>create_borrow on a request that passes the checks\<close>

lemma sample_facts:
    "req_reader_id (sample_request 1 14) = Some 1"
    "req_book_id (sample_request 1 14) = Some 1"
    "req_borrow_days (sample_request 1 14) = Some (JInt 14)"
    "(0::int) < 14"
    "select_reader 1 sample_db = sample_reader # []"
    "reader_status sample_reader = ''active''"
    "select_book 1 sample_db = \<lparr>book_id = 1, book_status = ''available''\<rparr> # []"
    "book_status \<lparr>book_id = 1, book_status = ''available''\<rparr> \<noteq> ''lost''"
    "book_status \<lparr>book_id = 1, book_status = ''available''\<rparr> \<noteq> ''borrowed''"
    "count_borrowed 1 sample_db < max_borrow_count sample_reader"
    by (simp_all add: sample_request_def sample_db_def sample_reader_def sample_borrow_def
        select_reader_def select_book_def count_borrowed_def)



lemma sample_create_borrow_update_fails: "fst (create_borrow (sample_request 1 14) 738905 {5} sample_db)
      = Inl (500, CreateBorrowFailed)"
proof -
  have "create_borrow (sample_request 1 14) 738905 {5} sample_db =
     create_borrow_transaction 1 1 738905 (738905 + 14)
       (case req_notes (sample_request 1 14) of None \<Rightarrow> [] | Some s \<Rightarrow> s) {5} sample_db"
    by (rule create_borrow_no_fault [OF sample_facts(1-3) sample_facts(5-10)])
      (simp_all add: date_min_def date_max_def)
  then show ?thesis
    by (simp add: create_borrow_transaction_def)
qed

theorem create_borrow_eligible_witness:
  "fst (create_borrow (sample_request 1 14) 738905 {} sample_db) = Inr (Created 6) \<and>
   map due_date (borrows (snd (create_borrow (sample_request 1 14) 738905 {} sample_db)))
     = [738895, 738919] \<and>
   map book_status (books (snd (create_borrow (sample_request 1 14) 738905 {} sample_db)))
     = [''borrowed'', ''borrowed'', ''damaged'', ''lost''] \<and>
   snd (create_borrow (sample_request 1 14) 738905 {5} sample_db) = sample_db"
proof -
  note ok = create_borrow_eligible [OF sample_facts, where F = "{}" and today = 738905]
  note ko = create_borrow_eligible [OF sample_facts, where F = "{5}" and today = 738905]
  have r: "fst (create_borrow (sample_request 1 14) 738905 {} sample_db)
      = Inr (Created (next_borrow_id sample_db))"
    using ok [THEN conjunct1] by (simp add: date_min_def date_max_def)
  note eff = ok [THEN conjunct2, THEN conjunct1, THEN spec, THEN mp, OF r]
  have 1: "fst (create_borrow (sample_request 1 14) 738905 {} sample_db) = Inr (Created 6)"
    using r by (simp add: sample_db_def)
  have 2: "map due_date (borrows (snd (create_borrow (sample_request 1 14) 738905 {} sample_db)))
     = [738895, 738919]"
    by (subst eff [THEN conjunct2, THEN conjunct1]) (simp add: sample_db_def sample_borrow_def)
  have 3: "map book_status (books (snd (create_borrow (sample_request 1 14) 738905 {} sample_db)))
     = [''borrowed'', ''borrowed'', ''damaged'', ''lost'']"
    by (subst eff [THEN conjunct2, THEN conjunct2, THEN conjunct1]) (simp add: sample_db_def)
  have 4: "snd (create_borrow (sample_request 1 14) 738905 {5} sample_db) = sample_db"
    by (rule ko [THEN conjunct2, THEN conjunct2, THEN spec, THEN mp, OF sample_create_borrow_update_fails])
  from 1 2 3 4 show ?thesis by blast
qed

subsection \<open>Tables after a write\<close>

lemma filter_map_none: "(\<And>x. \<not> P (f x)) \<Longrightarrow> filter P (map f xs) = []"
  by (induction xs) simp_all

lemma select_borrowed_returned: "select_borrowed i (update_borrow_returned i t d) = []"
  unfolding select_borrowed_def update_borrow_returned_def
  by (simp add: filter_map_none)

lemma select_borrowed_fined: "select_borrowed i (update_borrow_fined i a d) = []"
  unfolding select_borrowed_def update_borrow_fined_def
  by (simp add: filter_map_none)

lemma borrows_update_book_status: "borrows (update_book_status i s d) = borrows d"
  by (simp add: update_book_status_def)

lemma borrows_log_operation: "borrows (log_operation F k a ty i d) = borrows d"
  by (simp add: log_operation_def execute_write_def)

lemma books_log_operation: "books (log_operation F k a ty i d) = books d"
  by (simp add: log_operation_def execute_write_def)

lemma readers_log_operation: "readers (log_operation F k a ty i d) = readers d"
  by (simp add: log_operation_def execute_write_def)

lemma select_borrowed_cong:
  "borrows d' = borrows d \<Longrightarrow> select_borrowed i d' = select_borrowed i d"
  by (simp add: select_borrowed_def)

subsection \<open>return_book\<close>

lemma return_book_absent:
  "select_borrowed bid d = [] \<Longrightarrow>
   return_book bid today F d = (Inl (404, BorrowNotFoundOrReturned), d)"
  by (simp add: return_book_def execute_query_def)

lemma return_book_present:
  "select_borrowed bid d = b # bs \<Longrightarrow> 0 \<notin> F \<Longrightarrow>
   return_book bid today F d =
     (Inr Returned,
      log_operation F 3 LogReturnBook ''borrow'' bid
        (snd (execute_write F 2 (update_book_status (b_book_id b) ''available'')
           (snd (execute_write F 1 (update_borrow_returned bid today) d)))))"
  by (simp add: return_book_def execute_query_def Let_def)

lemma return_book_success:
  "fst (return_book bid today F d) = Inr p \<Longrightarrow>
   0 \<notin> F \<and> (\<exists>b bs. select_borrowed bid d = b # bs)"
  by (cases "select_borrowed bid d")
     (simp_all add: return_book_def execute_query_def Let_def split: if_splits)

text \<open>
  \<open>return_book\<close> answers 404 (record not found or already returned) and changes
  nothing whenever no record with that identifier and status borrowed exists. After a
  call that answered with success and whose update of the record was written, a second
  call on the same identifier answers 404 and changes nothing.
\<close>

lemma return_book_after_written_return:
  "(select_borrowed bid d = [] \<longrightarrow>
      return_book bid today F d = (Inl (404, BorrowNotFoundOrReturned), d)) \<and>
   (fst (return_book bid today F d) = Inr Returned \<and> 1 \<notin> F \<longrightarrow>
      return_book bid today' F' (snd (return_book bid today F d)) =
        (Inl (404, BorrowNotFoundOrReturned), snd (return_book bid today F d)))"
proof (intro conjI impI)
  assume "select_borrowed bid d = []"
  then show "return_book bid today F d = (Inl (404, BorrowNotFoundOrReturned), d)"
    by (rule return_book_absent)
next
  assume a: "fst (return_book bid today F d) = Inr Returned \<and> 1 \<notin> F"
  let ?d = "snd (return_book bid today F d)"
  from a obtain b bs where b: "select_borrowed bid d = b # bs" and F: "0 \<notin> F" "1 \<notin> F"
    using return_book_success [of bid today F d Returned] by blast
  have "borrows ?d = borrows (update_borrow_returned bid today d)"
    using F
    by (simp add: return_book_present [OF b F(1)] borrows_log_operation execute_write_def
        borrows_update_book_status)
  then have "select_borrowed bid ?d = select_borrowed bid (update_borrow_returned bid today d)"
    by (rule select_borrowed_cong)
  then have "select_borrowed bid ?d = []"
    by (simp add: select_borrowed_returned)
  then show "return_book bid today' F' ?d = (Inl (404, BorrowNotFoundOrReturned), ?d)"
    by (rule return_book_absent)
qed

lemma sample_select_borrowed: "select_borrowed 5 sample_db = sample_borrow # []"
  by (simp add: select_borrowed_def sample_db_def sample_borrow_def)

lemma sample_select_borrowed_absent: "select_borrowed 9 sample_db = []"
  by (simp add: select_borrowed_def sample_db_def sample_borrow_def)

lemma sample_return_book:
  "fst (return_book 5 738905 {} sample_db) = Inr Returned"
  by (simp add: return_book_present [OF sample_select_borrowed])

lemma books_update_borrow_returned: "books (update_borrow_returned i t d) = books d"
  by (simp add: update_borrow_returned_def)

lemma sample_return_book_lost_write:
  "return_book 5 738905 {2} sample_db =
     (Inr Returned,
      log_operation {2} 3 LogReturnBook ''borrow'' 5 (update_borrow_returned 5 738905 sample_db))"
proof -
  have "(0::nat) \<notin> {2}" by simp
  from return_book_present [OF sample_select_borrowed this, of 738905]
  show ?thesis by (simp add: execute_write_def)
qed

text \<open>
  Claim C3. The three writes of \<open>return_book\<close> are not one atomic unit. On the sample
  database, when the update of the book (storage call 2) fails, \<open>return_book\<close> answers
  with success, record 5 is returned and book 2 is still borrowed.
\<close>

theorem return_book_second_write_lost:
  "fst (return_book 5 738905 {2} sample_db) = Inr Returned \<and>
   map borrow_status (select_borrow 5 (snd (return_book 5 738905 {2} sample_db))) = [''returned''] \<and>
   map book_status (select_book 2 (snd (return_book 5 738905 {2} sample_db))) = [''borrowed'']"
proof -
  have 1: "fst (return_book 5 738905 {2} sample_db) = Inr Returned"
    by (simp add: sample_return_book_lost_write)
  have "borrows (snd (return_book 5 738905 {2} sample_db)) =
      borrows (update_borrow_returned 5 738905 sample_db)"
    by (simp add: sample_return_book_lost_write borrows_log_operation)
  then have 2: "map borrow_status (select_borrow 5 (snd (return_book 5 738905 {2} sample_db)))
      = [''returned'']"
    by (simp add: select_borrow_def update_borrow_returned_def sample_db_def sample_borrow_def)
  have "books (snd (return_book 5 738905 {2} sample_db)) = books sample_db"
    by (simp add: sample_return_book_lost_write books_log_operation books_update_borrow_returned)
  then have 3: "map book_status (select_book 2 (snd (return_book 5 738905 {2} sample_db)))
      = [''borrowed'']"
    by (simp add: select_book_def sample_db_def)
  from 1 2 3 show ?thesis by blast
qed

subsection \<open>apply_fine\<close>

lemma filter_map_update:
  "(\<And>x. P (g x) = P x) \<Longrightarrow>
   filter P (map (\<lambda>x. if P x then g x else x) xs) = map g (filter P xs)"
  by (induction xs) simp_all

lemma select_borrowed_imp_select_borrow:
  "select_borrowed bid d \<noteq> [] \<Longrightarrow> select_borrow bid d \<noteq> []"
  by (auto simp: select_borrowed_def select_borrow_def filter_empty_conv)

lemma apply_fine_present:
  "select_borrow bid d \<noteq> [] \<Longrightarrow> 0 < a \<Longrightarrow> 0 \<notin> F \<Longrightarrow> 1 \<notin> F \<Longrightarrow>
   apply_fine bid \<lparr>req_fine_amount = Some (JInt a)\<rparr> F d =
     (Inr (Fined a), log_operation F 2 LogApplyFine ''borrow'' bid (update_borrow_fined bid a d))"
  by (cases "select_borrow bid d")
     (simp_all add: apply_fine_def execute_query_def execute_write_def)

lemma select_borrow_fined:
  "select_borrow i (update_borrow_fined i a d) =
     map (\<lambda>b. b\<lparr>fine_amount := Some a, borrow_status := ''fined''\<rparr>) (select_borrow i d)"
  unfolding select_borrow_def update_borrow_fined_def
  by (simp add: filter_map_update)

lemma books_update_borrow_fined: "books (update_borrow_fined i a d) = books d"
  by (simp add: update_borrow_fined_def)

lemma select_borrow_cong:
  "borrows d' = borrows d \<Longrightarrow> select_borrow i d' = select_borrow i d"
  by (simp add: select_borrow_def)

text \<open>
  Claim C10. A fine on a borrowed record strands the book. For a record with status
  borrowed and an amount above 0, when the read and the update succeed, \<open>apply_fine\<close>
  answers with success, the record has the amount and the status fined, the table of
  books is unchanged (the book stays borrowed), and \<open>return_book\<close> on the same
  identifier then answers 404 and changes nothing, whatever storage call fails.
\<close>

theorem apply_fine_strands_book:
  "select_borrowed bid d \<noteq> [] \<and> 0 < a \<and> 0 \<notin> F \<and> 1 \<notin> F \<longrightarrow>
     fst (apply_fine bid \<lparr>req_fine_amount = Some (JInt a)\<rparr> F d) = Inr (Fined a) \<and>
     select_borrow bid (snd (apply_fine bid \<lparr>req_fine_amount = Some (JInt a)\<rparr> F d)) =
       map (\<lambda>b. b\<lparr>fine_amount := Some a, borrow_status := ''fined''\<rparr>) (select_borrow bid d) \<and>
     books (snd (apply_fine bid \<lparr>req_fine_amount = Some (JInt a)\<rparr> F d)) = books d \<and>
     return_book bid today F' (snd (apply_fine bid \<lparr>req_fine_amount = Some (JInt a)\<rparr> F d)) =
       (Inl (404, BorrowNotFoundOrReturned),
        snd (apply_fine bid \<lparr>req_fine_amount = Some (JInt a)\<rparr> F d))"
proof (intro impI)
  assume a: "select_borrowed bid d \<noteq> [] \<and> 0 < a \<and> 0 \<notin> F \<and> 1 \<notin> F"
  let ?r = "apply_fine bid \<lparr>req_fine_amount = Some (JInt a)\<rparr> F d"
  have r: "?r = (Inr (Fined a),
      log_operation F 2 LogApplyFine ''borrow'' bid (update_borrow_fined bid a d))"
    using a by (intro apply_fine_present select_borrowed_imp_select_borrow) simp_all
  have b: "borrows (snd ?r) = borrows (update_borrow_fined bid a d)"
    by (simp add: r borrows_log_operation)
  have 1: "fst ?r = Inr (Fined a)"
    by (simp add: r)
  have 2: "select_borrow bid (snd ?r) =
      map (\<lambda>b. b\<lparr>fine_amount := Some a, borrow_status := ''fined''\<rparr>) (select_borrow bid d)"
    using select_borrow_cong [OF b] by (simp add: select_borrow_fined)
  have 3: "books (snd ?r) = books d"
    by (simp add: r books_log_operation books_update_borrow_fined)
  have "select_borrowed bid (snd ?r) = []"
    using select_borrowed_cong [OF b] by (simp add: select_borrowed_fined)
  then have 4: "return_book bid today F' (snd ?r) = (Inl (404, BorrowNotFoundOrReturned), snd ?r)"
    by (rule return_book_absent)
  from 1 2 3 4 show "fst ?r = Inr (Fined a) \<and>
     select_borrow bid (snd ?r) =
       map (\<lambda>b. b\<lparr>fine_amount := Some a, borrow_status := ''fined''\<rparr>) (select_borrow bid d) \<and>
     books (snd ?r) = books d \<and>
     return_book bid today F' (snd ?r) = (Inl (404, BorrowNotFoundOrReturned), snd ?r)"
    by blast
qed

lemma sample_select_borrow: "select_borrow 5 sample_db = [sample_borrow]"
  by (simp add: select_borrow_def sample_db_def sample_borrow_def)

theorem apply_fine_strands_book_witness:
  "fst (apply_fine 5 \<lparr>req_fine_amount = Some (JInt 10)\<rparr> {} sample_db) = Inr (Fined 10) \<and>
   map borrow_status
     (select_borrow 5 (snd (apply_fine 5 \<lparr>req_fine_amount = Some (JInt 10)\<rparr> {} sample_db)))
     = [''fined''] \<and>
   map book_status
     (select_book 2 (snd (apply_fine 5 \<lparr>req_fine_amount = Some (JInt 10)\<rparr> {} sample_db)))
     = [''borrowed''] \<and>
   fst (return_book 5 738905 {}
          (snd (apply_fine 5 \<lparr>req_fine_amount = Some (JInt 10)\<rparr> {} sample_db))) =
     Inl (404, BorrowNotFoundOrReturned)"
proof -
  have h: "select_borrowed 5 sample_db \<noteq> [] \<and> (0::int) < 10 \<and> 0 \<notin> ({}::nat set)
      \<and> 1 \<notin> ({}::nat set)"
    by (simp add: sample_select_borrowed)
  note t = apply_fine_strands_book [where bid = 5 and d = sample_db and a = 10 and F = "{}"
      and today = 738905 and F' = "{}", THEN mp, OF h]
  have 2: "map borrow_status
     (select_borrow 5 (snd (apply_fine 5 \<lparr>req_fine_amount = Some (JInt 10)\<rparr> {} sample_db)))
     = [''fined'']"
    by (subst t [THEN conjunct2, THEN conjunct1]) (simp add: sample_select_borrow)
  have 3: "map book_status
     (select_book 2 (snd (apply_fine 5 \<lparr>req_fine_amount = Some (JInt 10)\<rparr> {} sample_db)))
     = [''borrowed'']"
    unfolding select_book_def
    by (subst t [THEN conjunct2, THEN conjunct2, THEN conjunct1]) (simp add: sample_db_def)
  have 4: "fst (return_book 5 738905 {}
          (snd (apply_fine 5 \<lparr>req_fine_amount = Some (JInt 10)\<rparr> {} sample_db))) =
     Inl (404, BorrowNotFoundOrReturned)"
    by (subst t [THEN conjunct2, THEN conjunct2, THEN conjunct2]) simp
  from t [THEN conjunct1] 2 3 4 show ?thesis by blast
qed

subsection \<open>create_borrow and the number of days\<close>

lemma sample_request_fields:
  "req_reader_id (sample_request b n) = Some 1"
  "req_book_id (sample_request b n) = Some b"
  "req_borrow_days (sample_request b n) = Some (JInt n)"
  "req_notes (sample_request b n) = None"
  by (simp_all add: sample_request_def)

lemma sample_create_borrow_negative_days:
  "create_borrow (sample_request 1 (- 5)) 738905 {} sample_db =
     (Inr (Created 6),
      log_operation {} 7 LogCreateBorrow ''borrow'' 6
        (update_book_status 1 ''borrowed'' (insert_borrow 1 1 738905 738900 [] sample_db)))"
proof -
  have "create_borrow (sample_request 1 (- 5)) 738905 {} sample_db =
      create_borrow_transaction 1 1 738905 (738905 + - 5)
        (case req_notes (sample_request 1 (- 5)) of None \<Rightarrow> [] | Some s \<Rightarrow> s) {} sample_db"
    by (rule create_borrow_no_fault [OF sample_request_fields(1-3) sample_facts(5-10)])
       (simp_all add: date_min_def date_max_def)
  also have "\<dots> = (Inr (Created 6),
      log_operation {} 7 LogCreateBorrow ''borrow'' 6
        (update_book_status 1 ''borrowed'' (insert_borrow 1 1 738905 738900 [] sample_db)))"
    by (simp add: create_borrow_transaction_def sample_request_fields)
       (simp add: sample_db_def)
  finally show ?thesis .
qed

text \<open>
  Claim C9. \<open>create_borrow\<close> does not check that \<open>borrow_days\<close> is positive: it only
  checks that the key is present. On the sample database a request of the active reader
  for the available book 1 with \<open>borrow_days\<close> = -5 answers with the new identifier 6,
  record 6 is inserted with a due date five days before its borrow date, and book 1 is
  borrowed.
\<close>

theorem create_borrow_accepts_negative_days:
  "fst (create_borrow (sample_request 1 (- 5)) 738905 {} sample_db) = Inr (Created 6) \<and>
   map (\<lambda>b. (borrow_date b, due_date b, borrow_status b))
     (select_borrow 6 (snd (create_borrow (sample_request 1 (- 5)) 738905 {} sample_db)))
     = [(738905, 738900, ''borrowed'')] \<and>
   map book_status
     (select_book 1 (snd (create_borrow (sample_request 1 (- 5)) 738905 {} sample_db)))
     = [''borrowed'']"
proof -
  have 1: "fst (create_borrow (sample_request 1 (- 5)) 738905 {} sample_db) = Inr (Created 6)"
    by (simp add: sample_create_borrow_negative_days)
  have "borrows (snd (create_borrow (sample_request 1 (- 5)) 738905 {} sample_db)) =
      borrows (insert_borrow 1 1 738905 738900 [] sample_db)"
    by (simp add: sample_create_borrow_negative_days borrows_log_operation
        borrows_update_book_status)
  then have 2: "map (\<lambda>b. (borrow_date b, due_date b, borrow_status b))
     (select_borrow 6 (snd (create_borrow (sample_request 1 (- 5)) 738905 {} sample_db)))
     = [(738905, 738900, ''borrowed'')]"
    by (simp add: select_borrow_def insert_borrow_def sample_db_def sample_borrow_def)
  have "books (snd (create_borrow (sample_request 1 (- 5)) 738905 {} sample_db)) =
      books (update_book_status 1 ''borrowed'' sample_db)"
    by (simp add: sample_create_borrow_negative_days books_log_operation
        update_book_status_def insert_borrow_def)
  then have 3: "map book_status
     (select_book 1 (snd (create_borrow (sample_request 1 (- 5)) 738905 {} sample_db)))
     = [''borrowed'']"
    by (simp add: select_book_def update_book_status_def sample_db_def)
  from 1 2 3 show ?thesis by blast
qed

subsection \<open>renew_book\<close>

lemma filter_map_update_where:
  "(\<And>x. P (g x) = P x) \<Longrightarrow> (\<And>x. P x \<Longrightarrow> Q x) \<Longrightarrow>
   filter P (map (\<lambda>x. if Q x then g x else x) xs) = map g (filter P xs)"
  by (induction xs) auto

lemma select_borrowed_renewed:
  "select_borrowed i (update_borrow_renewed i nd d) =
     map (\<lambda>b. b\<lparr>due_date := nd,
                 renew_count := Some ((case renew_count b of None \<Rightarrow> 0 | Some c \<Rightarrow> c) + 1)\<rparr>)
       (select_borrowed i d)"
  unfolding select_borrowed_def update_borrow_renewed_def
  by (simp, rule filter_map_update_where) simp_all

lemma renew_book_invalid_days:
  "req_days data = Some JNull \<or> (\<exists>n. req_days data = Some (JInt n) \<and> (n < 1 \<or> 90 < n)) \<Longrightarrow>
   renew_book bid data F d = (Inl (400, RenewDaysInvalid), d)"
  by (auto simp: renew_book_def)

lemma renew_book_days:
  "req_days data = Some (JInt n) \<or> req_days data = None \<and> n = 30 \<Longrightarrow>
   (case req_days data of None \<Rightarrow> JInt 30 | Some v \<Rightarrow> v) = JInt n"
  by auto

lemma renew_book_absent:
  assumes "req_days data = Some (JInt n) \<or> req_days data = None \<and> n = 30"
    and "1 \<le> n" and "n \<le> 90" and "select_borrowed bid d = [] \<or> 0 \<in> F"
  shows "renew_book bid data F d = (Inl (404, BorrowNotFoundOrReturned), d)"
  using assms(2-4)
  by (auto simp: renew_book_def renew_book_days [OF assms(1)] execute_query_def
      split: list.split)

lemma renew_book_limit:
  assumes "req_days data = Some (JInt n) \<or> req_days data = None \<and> n = 30"
    and "1 \<le> n" and "n \<le> 90" and "0 \<notin> F"
    and "select_borrowed bid d = b # bs" and "renew_count b = Some c" and "2 \<le> c"
  shows "renew_book bid data F d = (Inl (400, RenewLimitReached), d)"
  using assms(2-)
  by (simp add: renew_book_def renew_book_days [OF assms(1)] execute_query_def)

lemma renew_book_present:
  assumes "req_days data = Some (JInt n) \<or> req_days data = None \<and> n = 30"
    and "1 \<le> n" and "n \<le> 90" and "0 \<notin> F"
    and "select_borrowed bid d = b # bs" and "renew_count b = Some c" and "c < 2"
    and "date_min \<le> due_date b + n" and "due_date b + n \<le> date_max"
  shows "renew_book bid data F d =
     (Inr (Renewed (due_date b + n) n),
      log_operation F 2 LogRenewBook ''borrow'' bid
        (snd (execute_write F 1 (update_borrow_renewed bid (due_date b + n)) d)))"
  using assms(2-)
  by (simp add: renew_book_def renew_book_days [OF assms(1)] execute_query_def
      timedelta_def date_add_def)

lemma renew_book_effect:
  assumes "req_days data = Some (JInt n) \<or> req_days data = None \<and> n = 30"
    and "1 \<le> n" and "n \<le> 90" and "0 \<notin> F" and "1 \<notin> F"
    and "select_borrowed bid d = b # bs" and "renew_count b = Some c" and "c < 2"
    and "date_min \<le> due_date b + n" and "due_date b + n \<le> date_max"
  shows "fst (renew_book bid data F d) = Inr (Renewed (due_date b + n) n)"
    and "select_borrowed bid (snd (renew_book bid data F d)) =
      map (\<lambda>x. x\<lparr>due_date := due_date b + n,
                  renew_count := Some ((case renew_count x of None \<Rightarrow> 0 | Some k \<Rightarrow> k) + 1)\<rparr>)
        (select_borrowed bid d)"
proof -
  let ?r = "renew_book bid data F d"
  have r: "?r = (Inr (Renewed (due_date b + n) n),
      log_operation F 2 LogRenewBook ''borrow'' bid
        (snd (execute_write F 1 (update_borrow_renewed bid (due_date b + n)) d)))"
    by (rule renew_book_present [OF assms(1-4) assms(6-10)])
  show "fst ?r = Inr (Renewed (due_date b + n) n)"
    by (simp add: r)
  have "borrows (snd ?r) = borrows (update_borrow_renewed bid (due_date b + n) d)"
    using assms(5) by (simp add: r borrows_log_operation execute_write_def)
  then have "select_borrowed bid (snd ?r) =
      select_borrowed bid (update_borrow_renewed bid (due_date b + n) d)"
    by (rule select_borrowed_cong)
  then show "select_borrowed bid (snd ?r) =
      map (\<lambda>x. x\<lparr>due_date := due_date b + n,
                  renew_count := Some ((case renew_count x of None \<Rightarrow> 0 | Some k \<Rightarrow> k) + 1)\<rparr>)
        (select_borrowed bid d)"
    by (simp add: select_borrowed_renewed)
qed

text \<open>
  For a request of \<open>n\<close> days (30 when the request names none) with 1 \<le> n \<le> 90, on a
  record with status borrowed renewed fewer than 2 times, when the read and the update
  succeed and the new date is a date, \<open>renew_book\<close> answers with the new due date,
  which is the record's due date plus \<open>n\<close>, and the record has that due date and a
  renewal count one higher. A number of days outside 1..90 is answered 400; with valid
  days, no record with that identifier and status borrowed is answered 404.
\<close>

lemma renew_book_written:
  "(req_days data = Some (JInt n) \<or> req_days data = None \<and> n = 30) \<longrightarrow>
     (1 \<le> n \<and> n \<le> 90 \<and> select_borrowed bid d = b # bs \<and> renew_count b = Some c \<and> c < 2
        \<and> 0 \<notin> F \<and> 1 \<notin> F \<and> date_min \<le> due_date b \<and> due_date b + n \<le> date_max \<longrightarrow>
        fst (renew_book bid data F d) = Inr (Renewed (due_date b + n) n) \<and>
        (\<exists>bs'. select_borrowed bid (snd (renew_book bid data F d)) =
           b\<lparr>due_date := due_date b + n, renew_count := Some (c + 1)\<rparr> # bs')) \<and>
     (n < 1 \<or> 90 < n \<longrightarrow> renew_book bid data F d = (Inl (400, RenewDaysInvalid), d)) \<and>
     (1 \<le> n \<and> n \<le> 90 \<and> select_borrowed bid d = [] \<longrightarrow>
        renew_book bid data F d = (Inl (404, BorrowNotFoundOrReturned), d))"
proof (intro impI conjI)
  assume days: "req_days data = Some (JInt n) \<or> req_days data = None \<and> n = 30"
  assume a: "1 \<le> n \<and> n \<le> 90 \<and> select_borrowed bid d = b # bs \<and> renew_count b = Some c \<and> c < 2
        \<and> 0 \<notin> F \<and> 1 \<notin> F \<and> date_min \<le> due_date b \<and> due_date b + n \<le> date_max"
  let ?r = "renew_book bid data F d"
  from a have n: "1 \<le> n" "n \<le> 90" and F: "0 \<notin> F" "1 \<notin> F"
    and b: "select_borrowed bid d = b # bs" and c: "renew_count b = Some c" "c < 2"
    and due: "date_min \<le> due_date b + n" "due_date b + n \<le> date_max"
    by simp_all
  show "fst ?r = Inr (Renewed (due_date b + n) n)"
    by (rule renew_book_effect(1) [OF days n F b c due])
  show "\<exists>bs'. select_borrowed bid (snd ?r) =
           b\<lparr>due_date := due_date b + n, renew_count := Some (c + 1)\<rparr> # bs'"
    by (simp add: renew_book_effect(2) [OF days n F b c due] b c)
next
  assume days: "req_days data = Some (JInt n) \<or> req_days data = None \<and> n = 30"
  assume "n < 1 \<or> 90 < n"
  with days show "renew_book bid data F d = (Inl (400, RenewDaysInvalid), d)"
    by (intro renew_book_invalid_days) auto
next
  assume days: "req_days data = Some (JInt n) \<or> req_days data = None \<and> n = 30"
  assume "1 \<le> n \<and> n \<le> 90 \<and> select_borrowed bid d = []"
  then show "renew_book bid data F d = (Inl (404, BorrowNotFoundOrReturned), d)"
    by (intro renew_book_absent [OF days]) simp_all
qed


lemma sample_renew_days: "req_days \<lparr>req_days = Some (JInt k)\<rparr> = Some (JInt k) \<or>
    req_days \<lparr>req_days = Some (JInt k)\<rparr> = None \<and> k = 30"
  by simp

lemma sample_borrow_fields:
  "renew_count sample_borrow = Some 0" "due_date sample_borrow = 738895"
  by (simp_all add: sample_borrow_def)

lemma renew_book_fails_at_limit:
  assumes "select_borrowed bid d = b # bs" and "renew_count b = Some c" and "2 \<le> c"
  shows "\<exists>e. renew_book bid data F d = (Inl e, d)"
proof (cases "req_days data")
  case None
  then have days: "req_days data = Some (JInt 30) \<or> req_days data = None \<and> (30::int) = 30"
    by simp
  show ?thesis
  proof (cases "0 \<in> F")
    case True
    then show ?thesis
      using renew_book_absent [OF days, where F = F and bid = bid and d = d] by simp
  next
    case False
    then show ?thesis
      using renew_book_limit [OF days _ _ False assms] by simp
  qed
next
  case (Some v)
  show ?thesis
  proof (cases v)
    case JNull
    with Some show ?thesis
      using renew_book_invalid_days [of data bid F d] by simp
  next
    case (JInt n)
    with Some have days: "req_days data = Some (JInt n) \<or> req_days data = None \<and> n = 30"
      by simp
    show ?thesis
    proof (cases "n < 1 \<or> 90 < n")
      case True
      with Some JInt show ?thesis
        using renew_book_invalid_days [of data bid F d] by auto
    next
      case valid: False
      show ?thesis
      proof (cases "0 \<in> F")
        case True
        with valid show ?thesis
          using renew_book_absent [OF days, where F = F and bid = bid and d = d] by simp
      next
        case False
        with valid show ?thesis
          using renew_book_limit [OF days _ _ False assms] by simp
      qed
    qed
  qed
qed

text \<open>
  Claim C8, amended. On a record with status borrowed whose renewal count is 2 or more,
  \<open>renew_book\<close> answers 400 (renewal limit reached) for every valid number of days
  (1..90, or none given) when the read succeeds, and for every request and every failing
  storage call it answers with an error and leaves the database, so the due date and the
  renewal count, unchanged.
\<close>

theorem renew_book_limit_reached:
  "select_borrowed bid d = b # bs \<and> renew_count b = Some c \<and> 2 \<le> c \<longrightarrow>
     ((req_days data = None \<or> (\<exists>n. req_days data = Some (JInt n) \<and> 1 \<le> n \<and> n \<le> 90))
        \<and> 0 \<notin> F \<longrightarrow>
        renew_book bid data F d = (Inl (400, RenewLimitReached), d)) \<and>
     (\<exists>e. renew_book bid data F d = (Inl e, d))"
proof (intro impI conjI)
  assume a: "select_borrowed bid d = b # bs \<and> renew_count b = Some c \<and> 2 \<le> c"
  then show "\<exists>e. renew_book bid data F d = (Inl e, d)"
    using renew_book_fails_at_limit [of bid d b bs c data F] by simp
  assume v: "(req_days data = None \<or> (\<exists>n. req_days data = Some (JInt n) \<and> 1 \<le> n \<and> n \<le> 90))
        \<and> 0 \<notin> F"
  then obtain n where days: "req_days data = Some (JInt n) \<or> req_days data = None \<and> n = 30"
    and n: "1 \<le> n" "n \<le> 90"
    by auto
  from a have b: "select_borrowed bid d = b # bs" and c: "renew_count b = Some c" "2 \<le> c"
    by simp_all
  from v have "0 \<notin> F" by simp
  then show "renew_book bid data F d = (Inl (400, RenewLimitReached), d)"
    by (rule renew_book_limit [OF days n _ b c])
qed

lemma sample_first_renewal:
  "fst (renew_book 5 \<lparr>req_days = Some (JInt 30)\<rparr> {} sample_db) = Inr (Renewed 738925 30)"
  "select_borrowed 5 (snd (renew_book 5 \<lparr>req_days = Some (JInt 30)\<rparr> {} sample_db)) =
     [sample_borrow\<lparr>due_date := 738925, renew_count := Some 1\<rparr>]"
  using renew_book_effect [OF sample_renew_days, where bid = 5 and d = sample_db
        and b = sample_borrow and bs = "[]" and c = 0 and F = "{}"]
  by (simp_all add: sample_select_borrowed sample_borrow_fields date_min_def date_max_def)

lemma sample_second_renewal:
  "fst (renew_book 5 \<lparr>req_days = Some (JInt 30)\<rparr> {}
     (snd (renew_book 5 \<lparr>req_days = Some (JInt 30)\<rparr> {} sample_db))) = Inr (Renewed 738955 30)"
  "select_borrowed 5 twice_renewed_db =
     [sample_borrow\<lparr>due_date := 738955, renew_count := Some 2\<rparr>]"
  unfolding twice_renewed_db_def
  using renew_book_effect [OF sample_renew_days, where bid = 5
        and d = "snd (renew_book 5 \<lparr>req_days = Some (JInt 30)\<rparr> {} sample_db)"
        and b = "sample_borrow\<lparr>due_date := 738925, renew_count := Some 1\<rparr>"
        and bs = "[]" and c = 1 and F = "{}"]
  by (simp_all add: sample_first_renewal(2) date_min_def date_max_def)

text \<open>
  Claim C8 as stated fails: after two successful renewals of record 5 of the sample
  database its renewal count is 2, and a further request with 100 days is answered with
  the invalid-days error, not with the renewal-limit error, since the number of days is
  checked first.
\<close>

theorem renew_book_limit_counterexample:
  "fst (renew_book 5 \<lparr>req_days = Some (JInt 30)\<rparr> {} sample_db) = Inr (Renewed 738925 30) \<and>
   fst (renew_book 5 \<lparr>req_days = Some (JInt 30)\<rparr> {}
     (snd (renew_book 5 \<lparr>req_days = Some (JInt 30)\<rparr> {} sample_db))) = Inr (Renewed 738955 30) \<and>
   map renew_count (select_borrowed 5 twice_renewed_db) = [Some 2] \<and>
   renew_book 5 \<lparr>req_days = Some (JInt 100)\<rparr> {} twice_renewed_db =
     (Inl (400, RenewDaysInvalid), twice_renewed_db) \<and>
   fst (renew_book 5 \<lparr>req_days = Some (JInt 100)\<rparr> {} twice_renewed_db) \<noteq>
     Inl (400, RenewLimitReached)"
proof -
  have 3: "map renew_count (select_borrowed 5 twice_renewed_db) = [Some 2]"
    by (simp add: sample_second_renewal(2))
  have 4: "renew_book 5 \<lparr>req_days = Some (JInt 100)\<rparr> {} twice_renewed_db =
     (Inl (400, RenewDaysInvalid), twice_renewed_db)"
    by (rule renew_book_invalid_days) simp
  then have 5: "fst (renew_book 5 \<lparr>req_days = Some (JInt 100)\<rparr> {} twice_renewed_db) \<noteq>
     Inl (400, RenewLimitReached)"
    by simp
  from sample_first_renewal(1) sample_second_renewal(1) 3 4 5 show ?thesis by blast
qed

theorem renew_book_limit_reached_witness:
  "renew_book 5 \<lparr>req_days = Some (JInt 30)\<rparr> {} twice_renewed_db =
     (Inl (400, RenewLimitReached), twice_renewed_db) \<and>
   (\<exists>e. renew_book 5 \<lparr>req_days = Some (JInt 100)\<rparr> {} twice_renewed_db =
     (Inl e, twice_renewed_db))"
proof -
  have h: "select_borrowed 5 twice_renewed_db =
      sample_borrow\<lparr>due_date := 738955, renew_count := Some 2\<rparr> # [] \<and>
      renew_count (sample_borrow\<lparr>due_date := 738955, renew_count := Some 2\<rparr>) = Some 2 \<and>
      (2::int) \<le> 2"
    by (simp add: sample_second_renewal(2))
  have v: "(req_days \<lparr>req_days = Some (JInt 30)\<rparr> = None \<or>
      (\<exists>n. req_days \<lparr>req_days = Some (JInt 30)\<rparr> = Some (JInt n) \<and> 1 \<le> n \<and> n \<le> 90))
      \<and> 0 \<notin> ({}::nat set)"
    by simp
  have 1: "renew_book 5 \<lparr>req_days = Some (JInt 30)\<rparr> {} twice_renewed_db =
     (Inl (400, RenewLimitReached), twice_renewed_db)"
    by (rule renew_book_limit_reached [where bid = 5 and d = twice_renewed_db and c = 2
          and data = "\<lparr>req_days = Some (JInt 30)\<rparr>" and F = "{}",
          THEN mp, OF h, THEN conjunct1, THEN mp, OF v])
  have 2: "\<exists>e. renew_book 5 \<lparr>req_days = Some (JInt 100)\<rparr> {} twice_renewed_db =
     (Inl e, twice_renewed_db)"
    by (rule renew_book_limit_reached [where bid = 5 and d = twice_renewed_db and c = 2
          and data = "\<lparr>req_days = Some (JInt 100)\<rparr>" and F = "{}",
          THEN mp, OF h, THEN conjunct2])
  from 1 2 show ?thesis by blast
qed

subsection \<open>The checks of create_borrow, one by one\<close>

lemma create_borrow_reader_missing:
  assumes "req_reader_id data = Some rid" "req_book_id data = Some bid"
    "req_borrow_days data = Some days"
    and "select_reader rid d = [] \<or> 0 \<in> F"
  shows "create_borrow data today F d = (Inl (400, ReaderNotExist), d)"
  using assms by (auto simp: create_borrow_def execute_query_def)

lemma create_borrow_reader_inactive:
  assumes "req_reader_id data = Some rid" "req_book_id data = Some bid"
    "req_borrow_days data = Some days"
    and "0 \<notin> F" and "select_reader rid d = r # rs" and "reader_status r \<noteq> ''active''"
  shows "create_borrow data today F d = (Inl (400, ReaderStatusAbnormal), d)"
  using assms by (simp add: create_borrow_def execute_query_def)

lemma create_borrow_book_missing:
  assumes "req_reader_id data = Some rid" "req_book_id data = Some bid"
    "req_borrow_days data = Some days"
    and "0 \<notin> F" and "select_reader rid d = r # rs" and "reader_status r = ''active''"
    and "select_book bid d = [] \<or> 1 \<in> F"
  shows "create_borrow data today F d = (Inl (400, BookNotExist), d)"
  using assms by (auto simp: create_borrow_def execute_query_def)

lemma create_borrow_book_lost:
  assumes "req_reader_id data = Some rid" "req_book_id data = Some bid"
    "req_borrow_days data = Some days"
    and "0 \<notin> F" and "select_reader rid d = r # rs" and "reader_status r = ''active''"
    and "1 \<notin> F" and "select_book bid d = b # bs" and "book_status b = ''lost''"
  shows "create_borrow data today F d = (Inl (400, BookLost), d)"
  using assms by (simp add: create_borrow_def execute_query_def)

lemma create_borrow_book_borrowed:
  assumes "req_reader_id data = Some rid" "req_book_id data = Some bid"
    "req_borrow_days data = Some days"
    and "0 \<notin> F" and "select_reader rid d = r # rs" and "reader_status r = ''active''"
    and "1 \<notin> F" and "select_book bid d = b # bs" and "book_status b = ''borrowed''"
  shows "create_borrow data today F d = (Inl (400, BookBorrowed), d)"
  using assms by (simp add: create_borrow_def execute_query_def)

lemma create_borrow_limit:
  assumes "req_reader_id data = Some rid" "req_book_id data = Some bid"
    "req_borrow_days data = Some days"
    and "0 \<notin> F" and "select_reader rid d = r # rs" and "reader_status r = ''active''"
    and "1 \<notin> F" and "select_book bid d = b # bs"
    and "book_status b \<noteq> ''lost''" and "book_status b \<noteq> ''borrowed''"
    and "2 \<notin> F" and "\<not> count_borrowed rid d < max_borrow_count r"
  shows "create_borrow data today F d = (Inl (400, BorrowLimitReached), d)"
  using assms by (simp add: create_borrow_def execute_query_def)

lemma create_borrow_transaction_errors:
  "fst (create_borrow_transaction rid bid bd dd n F d) = Inl (c, e) \<Longrightarrow> reason_of e = None"
  by (auto simp: create_borrow_transaction_def Let_def split: if_splits)

lemma create_borrow_passed_errors:
  assumes "req_reader_id data = Some rid" "req_book_id data = Some bid"
    "req_borrow_days data = Some days"
    and "0 \<notin> F" and "select_reader rid d = r # rs" and "reader_status r = ''active''"
    and "1 \<notin> F" and "select_book bid d = b # bs"
    and "book_status b \<noteq> ''lost''" and "book_status b \<noteq> ''borrowed''"
    and "count_borrowed rid d < max_borrow_count r"
    and "fst (create_borrow data today F d) = Inl (c, e)"
  shows "reason_of e = None"
proof -
  have "create_borrow data today F d =
      (case py_int days of
         None \<Rightarrow> (Inl (500, CreateBorrowFailed), d)
       | Some n \<Rightarrow>
       (case timedelta n of
          None \<Rightarrow> (Inl (500, CreateBorrowFailed), d)
        | Some t \<Rightarrow>
       (case date_add today t of
          None \<Rightarrow> (Inl (500, CreateBorrowFailed), d)
        | Some due \<Rightarrow>
            create_borrow_transaction rid bid today due
              (case req_notes data of None \<Rightarrow> [] | Some n \<Rightarrow> n) F d)))"
    using assms(1-11) by (simp add: create_borrow_def execute_query_def)
  with assms(12) show ?thesis
    by (auto split: option.splits dest: create_borrow_transaction_errors)
qed


text \<open>
  When the three keys are present and the three reads succeed, \<open>create_borrow\<close>
  decides as the checker of the specification does on the first reader row, the first
  book row and the count of the reader's borrowed records: when the checker rejects with
  a reason, \<open>create_borrow\<close> answers 400 with an error of that reason and leaves the
  database unchanged; when the checker allows, no error of \<open>create_borrow\<close> is one of
  the rejections.
\<close>

lemma create_borrow_refines_checker:
  "req_reader_id data = Some rid \<and> req_book_id data = Some bid \<and>
   req_borrow_days data = Some days \<and> 0 \<notin> F \<and> 1 \<notin> F \<and> 2 \<notin> F \<longrightarrow>
     (\<forall>why.
        spec_can_borrow (first_row (select_reader rid d)) (first_row (select_book bid d))
          (count_borrowed rid d) = Some why \<longrightarrow>
        (\<exists>e. create_borrow data today F d = (Inl (400, e), d) \<and> reason_of e = Some why)) \<and>
     (spec_can_borrow (first_row (select_reader rid d)) (first_row (select_book bid d))
        (count_borrowed rid d) = None \<longrightarrow>
        (\<forall>c e. fst (create_borrow data today F d) = Inl (c, e) \<longrightarrow> reason_of e = None))"
proof (intro impI)
  assume a: "req_reader_id data = Some rid \<and> req_book_id data = Some bid \<and>
   req_borrow_days data = Some days \<and> 0 \<notin> F \<and> 1 \<notin> F \<and> 2 \<notin> F"
  then have f: "req_reader_id data = Some rid" "req_book_id data = Some bid"
      "req_borrow_days data = Some days"
    and F: "0 \<notin> F" "1 \<notin> F" "2 \<notin> F"
    by simp_all
  let ?spec = "spec_can_borrow (first_row (select_reader rid d)) (first_row (select_book bid d))
        (count_borrowed rid d)"
  let ?goal = "(\<forall>why. ?spec = Some why \<longrightarrow>
        (\<exists>e. create_borrow data today F d = (Inl (400, e), d) \<and> reason_of e = Some why)) \<and>
     (?spec = None \<longrightarrow>
        (\<forall>c e. fst (create_borrow data today F d) = Inl (c, e) \<longrightarrow> reason_of e = None))"
  show ?goal
  proof (cases "select_reader rid d")
    case Nil
    then have "?spec = Some ReaderNotEligible"
      by (simp add: spec_can_borrow_def first_row_def)
    moreover have "create_borrow data today F d = (Inl (400, ReaderNotExist), d)"
      using Nil by (intro create_borrow_reader_missing [OF f]) simp
    ultimately show ?thesis by simp
  next
    case r: (Cons r rs)
    show ?thesis
    proof (cases "reader_status r = ''active''")
      case False
      then have "?spec = Some ReaderNotEligible"
        using r by (simp add: spec_can_borrow_def first_row_def)
      moreover have "create_borrow data today F d = (Inl (400, ReaderStatusAbnormal), d)"
        by (rule create_borrow_reader_inactive [OF f F(1) r False])
      ultimately show ?thesis by simp
    next
      case active: True
      show ?thesis
      proof (cases "select_book bid d")
        case Nil
        then have "?spec = Some BookNotFound"
          using r active by (simp add: spec_can_borrow_def first_row_def)
        moreover have "create_borrow data today F d = (Inl (400, BookNotExist), d)"
          using Nil by (intro create_borrow_book_missing [OF f F(1) r active]) simp
        ultimately show ?thesis by simp
      next
        case b: (Cons b bs)
        show ?thesis
        proof (cases "book_status b = ''lost''")
          case True
          then have "?spec = Some BookIsLost"
            using r active b by (simp add: spec_can_borrow_def first_row_def)
          moreover have "create_borrow data today F d = (Inl (400, BookLost), d)"
            by (rule create_borrow_book_lost [OF f F(1) r active F(2) b True])
          ultimately show ?thesis by simp
        next
          case not_lost: False
          show ?thesis
          proof (cases "book_status b = ''borrowed''")
            case True
            then have "?spec = Some BookUnavailable"
              using r active b not_lost by (simp add: spec_can_borrow_def first_row_def)
            moreover have "create_borrow data today F d = (Inl (400, BookBorrowed), d)"
              by (rule create_borrow_book_borrowed [OF f F(1) r active F(2) b True])
            ultimately show ?thesis by simp
          next
            case not_borrowed: False
            show ?thesis
            proof (cases "count_borrowed rid d < max_borrow_count r")
              case False
              then have "?spec = Some LimitReached"
                using r active b not_lost not_borrowed
                by (simp add: spec_can_borrow_def first_row_def)
              moreover have "create_borrow data today F d = (Inl (400, BorrowLimitReached), d)"
                by (rule create_borrow_limit
                    [OF f F(1) r active F(2) b not_lost not_borrowed F(3) False])
              ultimately show ?thesis by simp
            next
              case True
              then have "?spec = None"
                using r active b not_lost not_borrowed
                by (simp add: spec_can_borrow_def first_row_def)
              moreover have "\<forall>c e. fst (create_borrow data today F d) = Inl (c, e) \<longrightarrow>
                  reason_of e = None"
                using create_borrow_passed_errors
                  [OF f F(1) r active F(2) b not_lost not_borrowed True]
                by blast
              ultimately show ?thesis by simp
            qed
          qed
        qed
      qed
    qed
  qed
qed


lemma limit_db_facts:
  "select_reader 1 limit_db = [sample_reader]"
  "select_book 1 limit_db = [\<lparr>book_id = 1, book_status = ''available''\<rparr>]"
  "count_borrowed 1 limit_db = 3"
  by (simp_all add: limit_db_def sample_db_def sample_borrow_def sample_reader_def
      select_reader_def select_book_def count_borrowed_def)

lemma sample_db_lost_book:
  "select_book 4 sample_db = [\<lparr>book_id = 4, book_status = ''lost''\<rparr>]"
  by (simp add: sample_db_def select_book_def)

lemma sample_db_reader: "select_reader 1 sample_db = [sample_reader]"
  by (simp add: sample_db_def select_reader_def sample_reader_def)

lemma sample_db_count: "count_borrowed 1 sample_db = 1"
  by (simp add: sample_db_def count_borrowed_def sample_borrow_def)

lemma sample_reader_fields:
  "reader_status sample_reader = ''active''" "max_borrow_count sample_reader = 3"
  "reader_id sample_reader = 1"
  by (simp_all add: sample_reader_def)

subsection \<open>Lost and damaged books\<close>

lemma create_borrow_failure_unchanged:
  "fst (create_borrow data today F d) = Inl e \<Longrightarrow> snd (create_borrow data today F d) = d"
  using create_borrow_cases [of data today F d]
  by (auto simp: create_borrow_transaction_failure)

lemma create_borrow_lost_fails:
  assumes "req_book_id data = Some bid" and "select_book bid d = b # bs"
    and "book_status b = ''lost''"
  shows "\<exists>e. create_borrow data today F d = (Inl e, d)"
proof (cases "fst (create_borrow data today F d)")
  case (Inl e)
  then have "create_borrow data today F d = (Inl e, d)"
    using create_borrow_failure_unchanged [OF Inl] by (simp add: prod_eq_iff)
  then show ?thesis by blast
next
  case (Inr p)
  then have "create_borrow data today F d = (Inr p, snd (create_borrow data today F d))"
    by (simp add: prod_eq_iff)
  then obtain bid' b' bs' where "req_book_id data = Some bid'"
    and "execute_query F 1 (select_book bid' d) = Some (b' # bs')"
    and "book_status b' \<noteq> ''lost''"
    using create_borrow_success [of data today F d p "snd (create_borrow data today F d)"]
    by blast
  with assms have False
    by (simp add: execute_query_def split: if_splits)
  then show ?thesis ..
qed

lemma select_book_updated:
  "select_book i (update_book_status i s d) =
     map (\<lambda>k. k\<lparr>book_status := s\<rparr>) (select_book i d)"
  unfolding select_book_def update_book_status_def
  by (simp, rule filter_map_update) simp

lemma select_borrow_status_row:
  "select_borrow i (update_borrow_status_row i s d) =
     map (\<lambda>y. y\<lparr>borrow_status := s\<rparr>) (select_borrow i d)"
  unfolding select_borrow_def update_borrow_status_row_def
  by (simp, rule filter_map_update) simp

lemma books_update_borrow_status_row: "books (update_borrow_status_row i s d) = books d"
  by (simp add: update_borrow_status_row_def)

lemma readers_update_borrow_status_row: "readers (update_borrow_status_row i s d) = readers d"
  by (simp add: update_borrow_status_row_def)

lemma readers_update_book_status: "readers (update_book_status i s d) = readers d"
  by (simp add: update_book_status_def)

lemma select_book_cong: "books d' = books d \<Longrightarrow> select_book i d' = select_book i d"
  by (simp add: select_book_def)

lemma select_reader_cong: "readers d' = readers d \<Longrightarrow> select_reader i d' = select_reader i d"
  by (simp add: select_reader_def)

lemma update_borrow_status_lost:
  assumes "select_borrow brid d = x # xs"
    and "0 \<notin> F" "1 \<notin> F" "2 \<notin> F" "3 \<notin> F" "4 \<notin> F"
  shows "update_borrow_status brid \<lparr>req_status = Some ''lost''\<rparr> today F d =
     (Inr StatusUpdated,
      log_operation F 5 LogUpdateBorrowStatus ''borrow'' brid
        (update_book_status (b_book_id x) ''lost'' (update_borrow_status_row brid ''lost'' d)))"
  using assms
  by (simp add: update_borrow_status_def valid_statuses_def execute_query_def Let_def)


lemma update_borrow_status_lost_tables:
  assumes "select_borrow brid d = x # xs"
    and "0 \<notin> F" "1 \<notin> F" "2 \<notin> F" "3 \<notin> F" "4 \<notin> F"
  shows "fst (update_borrow_status brid \<lparr>req_status = Some ''lost''\<rparr> today F d) =
      Inr StatusUpdated"
    and "select_borrow brid
        (snd (update_borrow_status brid \<lparr>req_status = Some ''lost''\<rparr> today F d)) =
      map (\<lambda>y. y\<lparr>borrow_status := ''lost''\<rparr>) (select_borrow brid d)"
    and "select_book (b_book_id x)
        (snd (update_borrow_status brid \<lparr>req_status = Some ''lost''\<rparr> today F d)) =
      map (\<lambda>k. k\<lparr>book_status := ''lost''\<rparr>) (select_book (b_book_id x) d)"
    and "readers (snd (update_borrow_status brid \<lparr>req_status = Some ''lost''\<rparr> today F d)) =
      readers d"
proof -
  let ?r = "update_borrow_status brid \<lparr>req_status = Some ''lost''\<rparr> today F d"
  note r = update_borrow_status_lost [OF assms, of today]
  show "fst ?r = Inr StatusUpdated"
    by (simp add: r)
  have "borrows (snd ?r) = borrows (update_borrow_status_row brid ''lost'' d)"
    by (simp add: r borrows_log_operation borrows_update_book_status)
  then have "select_borrow brid (snd ?r) =
      select_borrow brid (update_borrow_status_row brid ''lost'' d)"
    by (rule select_borrow_cong)
  then show "select_borrow brid (snd ?r) =
      map (\<lambda>y. y\<lparr>borrow_status := ''lost''\<rparr>) (select_borrow brid d)"
    by (simp add: select_borrow_status_row)
  have "books (snd ?r) =
      books (update_book_status (b_book_id x) ''lost'' (update_borrow_status_row brid ''lost'' d))"
    by (simp add: r books_log_operation)
  then have "select_book (b_book_id x) (snd ?r) =
      select_book (b_book_id x)
        (update_book_status (b_book_id x) ''lost'' (update_borrow_status_row brid ''lost'' d))"
    by (rule select_book_cong)
  also have "\<dots> = map (\<lambda>k. k\<lparr>book_status := ''lost''\<rparr>)
      (select_book (b_book_id x) (update_borrow_status_row brid ''lost'' d))"
    by (rule select_book_updated)
  also have "select_book (b_book_id x) (update_borrow_status_row brid ''lost'' d) =
      select_book (b_book_id x) d"
    by (rule select_book_cong) (rule books_update_borrow_status_row)
  finally show "select_book (b_book_id x) (snd ?r) =
      map (\<lambda>k. k\<lparr>book_status := ''lost''\<rparr>) (select_book (b_book_id x) d)" .
  show "readers (snd ?r) = readers d"
    by (simp add: r readers_log_operation readers_update_book_status
        readers_update_borrow_status_row)
qed

text \<open>
  Claim C6, amended. A lost book cannot be borrowed: \<open>create_borrow\<close> for a book
  whose status is lost answers with an error and changes nothing, whatever the request
  and the failing storage calls, and with the book-lost error when the request is complete,
  the reader is active and the two reads succeed. After \<open>update_borrow_status\<close> with
  status lost on an existing record (read, connection, the two updates and the commit
  succeeding) the record has status lost, the book it refers to has status lost, and a
  later \<open>create_borrow\<close> for that book fails in the same way.
\<close>

theorem lost_book_not_borrowable:
  "(req_book_id data = Some bid \<and> select_book bid d = b # bs \<and> book_status b = ''lost'' \<longrightarrow>
      (\<exists>e. create_borrow data today F d = (Inl e, d)) \<and>
      (req_reader_id data = Some rid \<and> req_borrow_days data = Some days \<and> 0 \<notin> F \<and> 1 \<notin> F \<and>
       select_reader rid d = r # rs \<and> reader_status r = ''active'' \<longrightarrow>
         create_borrow data today F d = (Inl (400, BookLost), d))) \<and>
   (select_borrow brid d = x # xs \<and> F' \<inter> {0, 1, 2, 3, 4} = {} \<longrightarrow>
      (let d' = snd (update_borrow_status brid \<lparr>req_status = Some ''lost''\<rparr> today' F' d) in
       fst (update_borrow_status brid \<lparr>req_status = Some ''lost''\<rparr> today' F' d) =
         Inr StatusUpdated \<and>
       select_borrow brid d' = map (\<lambda>y. y\<lparr>borrow_status := ''lost''\<rparr>) (select_borrow brid d) \<and>
       select_book (b_book_id x) d' =
         map (\<lambda>k. k\<lparr>book_status := ''lost''\<rparr>) (select_book (b_book_id x) d) \<and>
       (req_book_id data = Some (b_book_id x) \<and> select_book (b_book_id x) d \<noteq> [] \<longrightarrow>
          (\<exists>e. create_borrow data today F d' = (Inl e, d')) \<and>
          (req_reader_id data = Some rid \<and> req_borrow_days data = Some days \<and>
           0 \<notin> F \<and> 1 \<notin> F \<and> select_reader rid d = r # rs \<and> reader_status r = ''active'' \<longrightarrow>
             create_borrow data today F d' = (Inl (400, BookLost), d')))))"
proof (intro conjI impI)
  assume a: "req_book_id data = Some bid \<and> select_book bid d = b # bs \<and> book_status b = ''lost''"
  then have bk: "req_book_id data = Some bid" "select_book bid d = b # bs"
      "book_status b = ''lost''"
    by simp_all
  show "\<exists>e. create_borrow data today F d = (Inl e, d)"
    by (rule create_borrow_lost_fails [OF bk])
  assume "req_reader_id data = Some rid \<and> req_borrow_days data = Some days \<and> 0 \<notin> F \<and> 1 \<notin> F \<and>
       select_reader rid d = r # rs \<and> reader_status r = ''active''"
  then have rd: "req_reader_id data = Some rid" "req_borrow_days data = Some days"
      "0 \<notin> F" "1 \<notin> F" "select_reader rid d = r # rs" "reader_status r = ''active''"
    by simp_all
  show "create_borrow data today F d = (Inl (400, BookLost), d)"
    by (rule create_borrow_book_lost [OF rd(1) bk(1) rd(2) rd(3) rd(5) rd(6) rd(4) bk(2) bk(3)])
next
  assume a: "select_borrow brid d = x # xs \<and> F' \<inter> {0, 1, 2, 3, 4} = {}"
  then have x: "select_borrow brid d = x # xs"
    and F': "0 \<notin> F'" "1 \<notin> F'" "2 \<notin> F'" "3 \<notin> F'" "4 \<notin> F'"
    by simp_all
  let ?d = "snd (update_borrow_status brid \<lparr>req_status = Some ''lost''\<rparr> today' F' d)"
  note t = update_borrow_status_lost_tables [OF x F', of today']
  have sub: "(\<exists>e. create_borrow data today F ?d = (Inl e, ?d)) \<and>
          (req_reader_id data = Some rid \<and> req_borrow_days data = Some days \<and>
           0 \<notin> F \<and> 1 \<notin> F \<and> select_reader rid d = r # rs \<and> reader_status r = ''active'' \<longrightarrow>
             create_borrow data today F ?d = (Inl (400, BookLost), ?d))"
    if h: "req_book_id data = Some (b_book_id x) \<and> select_book (b_book_id x) d \<noteq> []"
  proof -
    from h obtain k ks where k: "select_book (b_book_id x) d = k # ks"
      by (cases "select_book (b_book_id x) d") simp_all
    have bk: "req_book_id data = Some (b_book_id x)"
      "select_book (b_book_id x) ?d =
         k\<lparr>book_status := ''lost''\<rparr> # map (\<lambda>k. k\<lparr>book_status := ''lost''\<rparr>) ks"
      "book_status (k\<lparr>book_status := ''lost''\<rparr>) = ''lost''"
      using h by (simp_all add: t(3) k)
    have 1: "\<exists>e. create_borrow data today F ?d = (Inl e, ?d)"
      by (rule create_borrow_lost_fails [OF bk])
    have 2: "create_borrow data today F ?d = (Inl (400, BookLost), ?d)"
      if rd: "req_reader_id data = Some rid \<and> req_borrow_days data = Some days \<and>
           0 \<notin> F \<and> 1 \<notin> F \<and> select_reader rid d = r # rs \<and> reader_status r = ''active''"
    proof -
      from rd have rd': "req_reader_id data = Some rid" "req_borrow_days data = Some days"
        "0 \<notin> F" "1 \<notin> F" "select_reader rid d = r # rs" "reader_status r = ''active''"
        by simp_all
      have sr: "select_reader rid ?d = r # rs"
        using select_reader_cong [OF t(4), of rid] rd'(5) by simp
      show ?thesis
        by (rule create_borrow_book_lost
            [OF rd'(1) bk(1) rd'(2) rd'(3) sr rd'(6) rd'(4) bk(2) bk(3)])
    qed
    from 1 2 show ?thesis by blast
  qed
  show "let d' = snd (update_borrow_status brid \<lparr>req_status = Some ''lost''\<rparr> today' F' d) in
       fst (update_borrow_status brid \<lparr>req_status = Some ''lost''\<rparr> today' F' d) =
         Inr StatusUpdated \<and>
       select_borrow brid d' = map (\<lambda>y. y\<lparr>borrow_status := ''lost''\<rparr>) (select_borrow brid d) \<and>
       select_book (b_book_id x) d' =
         map (\<lambda>k. k\<lparr>book_status := ''lost''\<rparr>) (select_book (b_book_id x) d) \<and>
       (req_book_id data = Some (b_book_id x) \<and> select_book (b_book_id x) d \<noteq> [] \<longrightarrow>
          (\<exists>e. create_borrow data today F d' = (Inl e, d')) \<and>
          (req_reader_id data = Some rid \<and> req_borrow_days data = Some days \<and>
           0 \<notin> F \<and> 1 \<notin> F \<and> select_reader rid d = r # rs \<and> reader_status r = ''active'' \<longrightarrow>
             create_borrow data today F d' = (Inl (400, BookLost), d')))"
    unfolding Let_def using t(1) t(2) t(3) sub by blast
qed


lemma sample_db_damaged_book:
  "select_book 3 sample_db = [\<lparr>book_id = 3, book_status = ''damaged''\<rparr>]"
  by (simp add: sample_db_def select_book_def)

lemma sample_db_borrowed_book:
  "select_book 2 sample_db = [\<lparr>book_id = 2, book_status = ''borrowed''\<rparr>]"
  by (simp add: sample_db_def select_book_def)

text \<open>
  Claim C6 as stated fails for a damaged book: book 3 of the sample database is damaged
  and \<open>create_borrow\<close> lends it, since the handler tests the statuses lost and borrowed
  only.
\<close>

theorem damaged_book_borrowable:
  "map book_status (select_book 3 sample_db) = [''damaged''] \<and>
   fst (create_borrow (sample_request 3 14) 738905 {} sample_db) = Inr (Created 6)"
proof -
  have "create_borrow (sample_request 3 14) 738905 {} sample_db =
      create_borrow_transaction 1 3 738905 (738905 + 14)
        (case req_notes (sample_request 3 14) of None \<Rightarrow> [] | Some s \<Rightarrow> s) {} sample_db"
  proof (rule create_borrow_no_fault [OF sample_request_fields(1-3) sample_facts(5,6)
          _ _ _ sample_facts(10)])
    show "select_book 3 sample_db = \<lparr>book_id = 3, book_status = ''damaged''\<rparr> # []"
      by (rule sample_db_damaged_book)
  qed (simp_all add: date_min_def date_max_def)
  then have "fst (create_borrow (sample_request 3 14) 738905 {} sample_db) =
      Inr (Created (next_borrow_id sample_db))"
    by (simp add: create_borrow_transaction_def Let_def)
  then show ?thesis
    by (simp add: sample_db_damaged_book) (simp add: sample_db_def)
qed

theorem lost_book_not_borrowable_witness:
  "create_borrow (sample_request 4 14) 738905 {} sample_db = (Inl (400, BookLost), sample_db) \<and>
   fst (update_borrow_status 5 \<lparr>req_status = Some ''lost''\<rparr> 738905 {} sample_db) =
     Inr StatusUpdated \<and>
   map borrow_status (select_borrow 5
     (snd (update_borrow_status 5 \<lparr>req_status = Some ''lost''\<rparr> 738905 {} sample_db))) =
     [''lost''] \<and>
   map book_status (select_book 2
     (snd (update_borrow_status 5 \<lparr>req_status = Some ''lost''\<rparr> 738905 {} sample_db))) =
     [''lost''] \<and>
   fst (create_borrow (sample_request 2 14) 738906 {}
     (snd (update_borrow_status 5 \<lparr>req_status = Some ''lost''\<rparr> 738905 {} sample_db))) =
     Inl (400, BookLost)"
proof -
  have a: "req_book_id (sample_request 4 14) = Some 4 \<and>
      select_book 4 sample_db = \<lparr>book_id = 4, book_status = ''lost''\<rparr> # [] \<and>
      book_status \<lparr>book_id = 4, book_status = ''lost''\<rparr> = ''lost''"
    by (simp add: sample_request_fields sample_db_lost_book)
  have rd: "req_reader_id (sample_request k 14) = Some 1 \<and>
      req_borrow_days (sample_request k 14) = Some (JInt 14) \<and>
      0 \<notin> ({}::nat set) \<and> 1 \<notin> ({}::nat set) \<and>
      select_reader 1 sample_db = sample_reader # [] \<and>
      reader_status sample_reader = ''active''" for k
    by (simp add: sample_request_fields sample_db_reader sample_reader_fields)
  have 1: "create_borrow (sample_request 4 14) 738905 {} sample_db =
      (Inl (400, BookLost), sample_db)"
    by (rule lost_book_not_borrowable [where data = "sample_request 4 14" and bid = 4
          and d = sample_db and rid = 1 and days = "JInt 14" and F = "{}" and r = sample_reader
          and rs = "[]" and today = 738905,
          THEN conjunct1, THEN mp, OF a, THEN conjunct2, THEN mp, OF rd])
  have b: "select_borrow 5 sample_db = sample_borrow # [] \<and>
      ({}::nat set) \<inter> {0, 1, 2, 3, 4} = {}"
    by (simp add: sample_select_borrow)
  note t = lost_book_not_borrowable [where data = "sample_request 2 14" and brid = 5
          and d = sample_db and x = sample_borrow and xs = "[]" and F' = "{}"
          and today' = 738905 and rid = 1 and days = "JInt 14" and F = "{}"
          and r = sample_reader and rs = "[]" and today = 738906,
          THEN conjunct2, THEN mp, OF b, unfolded Let_def]
  have bk: "b_book_id sample_borrow = 2"
    by (simp add: sample_borrow_def)
  have 3: "map borrow_status (select_borrow 5
     (snd (update_borrow_status 5 \<lparr>req_status = Some ''lost''\<rparr> 738905 {} sample_db))) =
     [''lost'']"
    by (subst t [THEN conjunct2, THEN conjunct1]) (simp add: sample_select_borrow)
  have 4: "map book_status (select_book 2
     (snd (update_borrow_status 5 \<lparr>req_status = Some ''lost''\<rparr> 738905 {} sample_db))) =
     [''lost'']"
    using t [THEN conjunct2, THEN conjunct2, THEN conjunct1]
    by (simp add: bk sample_db_borrowed_book)
  have c: "req_book_id (sample_request 2 14) = Some (b_book_id sample_borrow) \<and>
      select_book (b_book_id sample_borrow) sample_db \<noteq> []"
    by (simp add: bk sample_request_fields sample_db_borrowed_book)
  have "create_borrow (sample_request 2 14) 738906 {}
     (snd (update_borrow_status 5 \<lparr>req_status = Some ''lost''\<rparr> 738905 {} sample_db)) =
     (Inl (400, BookLost),
      snd (update_borrow_status 5 \<lparr>req_status = Some ''lost''\<rparr> 738905 {} sample_db))"
    by (rule t [THEN conjunct2, THEN conjunct2, THEN conjunct2, THEN mp, OF c,
          THEN conjunct2, THEN mp, OF rd])
  then have 5: "fst (create_borrow (sample_request 2 14) 738906 {}
     (snd (update_borrow_status 5 \<lparr>req_status = Some ''lost''\<rparr> 738905 {} sample_db))) =
     Inl (400, BookLost)"
    by simp
  from 1 t [THEN conjunct1] 3 4 5 show ?thesis by blast
qed

subsection \<open>The borrowing limit\<close>

lemma within_limits_no_more_borrowed:
  "within_limits d \<Longrightarrow> no_more_borrowed d d' \<Longrightarrow> within_limits d'"
  unfolding within_limits_def limit_inv_def no_more_borrowed_def
  by (auto intro: order_trans)

lemma no_more_borrowed_refl: "no_more_borrowed d d"
  by (simp add: no_more_borrowed_def)

lemma length_filter_comp_le:
  "(\<And>x. P (f x) \<Longrightarrow> P x) \<Longrightarrow> length (filter (P \<circ> f) xs) \<le> length (filter P xs)"
  by (induction xs) auto

lemma count_borrowed_cong:
  "borrows d' = borrows d \<Longrightarrow> count_borrowed i d' = count_borrowed i d"
  by (simp add: count_borrowed_def)

lemma count_borrowed_returned:
  "count_borrowed i (update_borrow_returned j t d) \<le> count_borrowed i d"
  by (simp add: count_borrowed_def update_borrow_returned_def)
     (rule length_filter_comp_le, simp split: if_splits)

lemma count_borrowed_renewed:
  "count_borrowed i (update_borrow_renewed j t d) \<le> count_borrowed i d"
  by (simp add: count_borrowed_def update_borrow_renewed_def)
     (rule length_filter_comp_le, simp split: if_splits)

lemma count_borrowed_fined:
  "count_borrowed i (update_borrow_fined j a d) \<le> count_borrowed i d"
  by (simp add: count_borrowed_def update_borrow_fined_def)
     (rule length_filter_comp_le, simp split: if_splits)

lemma count_borrowed_status_row:
  "s \<noteq> ''borrowed'' \<Longrightarrow>
   count_borrowed i (update_borrow_status_row j s d) \<le> count_borrowed i d"
  by (simp add: count_borrowed_def update_borrow_status_row_def)
     (rule length_filter_comp_le, simp split: if_splits)

lemma readers_update_borrow_returned: "readers (update_borrow_returned i t d) = readers d"
  by (simp add: update_borrow_returned_def)

lemma readers_update_borrow_renewed: "readers (update_borrow_renewed i t d) = readers d"
  by (simp add: update_borrow_renewed_def)

lemma readers_update_borrow_fined: "readers (update_borrow_fined i a d) = readers d"
  by (simp add: update_borrow_fined_def)

lemma no_more_borrowed_step:
  assumes "no_more_borrowed d d1" and "readers d2 = readers d1"
    and "\<And>i. count_borrowed i d2 \<le> count_borrowed i d1"
  shows "no_more_borrowed d d2"
  unfolding no_more_borrowed_def
proof (intro conjI allI)
  show "readers d2 = readers d"
    using assms(1,2) by (simp add: no_more_borrowed_def)
  fix i
  have "count_borrowed i d1 \<le> count_borrowed i d"
    using assms(1) by (simp add: no_more_borrowed_def)
  with assms(3) [of i] show "count_borrowed i d2 \<le> count_borrowed i d"
    by (rule order_trans)
qed

lemma no_more_borrowed_logs:
  "no_more_borrowed d d1 \<Longrightarrow> no_more_borrowed d (d1\<lparr>system_logs := l\<rparr>)"
  by (erule no_more_borrowed_step) (simp_all add: count_borrowed_def)

lemma no_more_borrowed_log_operation:
  "no_more_borrowed d d1 \<Longrightarrow> no_more_borrowed d (log_operation F k a ty i d1)"
  by (erule no_more_borrowed_step)
     (simp_all add: readers_log_operation count_borrowed_cong [OF borrows_log_operation])

lemma no_more_borrowed_book:
  "no_more_borrowed d d1 \<Longrightarrow> no_more_borrowed d (update_book_status i s d1)"
  by (erule no_more_borrowed_step)
     (simp_all add: readers_update_book_status
        count_borrowed_cong [OF borrows_update_book_status])

lemma no_more_borrowed_returned:
  "no_more_borrowed d d1 \<Longrightarrow> no_more_borrowed d (update_borrow_returned i t d1)"
  by (erule no_more_borrowed_step)
     (simp_all add: readers_update_borrow_returned count_borrowed_returned)

lemma no_more_borrowed_renewed:
  "no_more_borrowed d d1 \<Longrightarrow> no_more_borrowed d (update_borrow_renewed i t d1)"
  by (erule no_more_borrowed_step)
     (simp_all add: readers_update_borrow_renewed count_borrowed_renewed)

lemma no_more_borrowed_fined:
  "no_more_borrowed d d1 \<Longrightarrow> no_more_borrowed d (update_borrow_fined i a d1)"
  by (erule no_more_borrowed_step)
     (simp_all add: readers_update_borrow_fined count_borrowed_fined)

lemma no_more_borrowed_status_row:
  "s \<noteq> ''borrowed'' \<Longrightarrow> no_more_borrowed d d1 \<Longrightarrow>
   no_more_borrowed d (update_borrow_status_row i s d1)"
  by (erule no_more_borrowed_step)
     (simp_all add: readers_update_borrow_status_row count_borrowed_status_row)

lemma no_more_borrowed_write:
  "(\<And>x. no_more_borrowed d x \<Longrightarrow> no_more_borrowed d (upd x)) \<Longrightarrow>
   no_more_borrowed d d1 \<Longrightarrow> no_more_borrowed d (snd (execute_write F k upd d1))"
  by (simp add: execute_write_def)

lemma return_book_no_more_borrowed: "no_more_borrowed d (snd (return_book bid today F d))"
  unfolding return_book_def Let_def
  by (simp split: option.split list.split)
     (intro conjI allI impI no_more_borrowed_refl no_more_borrowed_log_operation
        no_more_borrowed_write no_more_borrowed_book no_more_borrowed_returned)

lemma renew_book_no_more_borrowed: "no_more_borrowed d (snd (renew_book bid data F d))"
  unfolding renew_book_def Let_def
  by (simp split: option.split list.split jval.split)
     (intro conjI allI impI no_more_borrowed_refl no_more_borrowed_log_operation
        no_more_borrowed_write no_more_borrowed_renewed)


lemma apply_fine_no_more_borrowed: "no_more_borrowed d (snd (apply_fine bid data F d))"
  unfolding apply_fine_def
  by (simp split: option.split list.split jval.split add: execute_write_def)
     (intro conjI allI impI no_more_borrowed_refl no_more_borrowed_log_operation
        no_more_borrowed_fined)

lemma update_borrow_status_no_more_borrowed:
  "req_status data \<noteq> Some ''borrowed'' \<Longrightarrow>
   no_more_borrowed d (snd (update_borrow_status bid data today F d))"
  unfolding update_borrow_status_def Let_def
  by (simp split: option.split list.split)
     (intro conjI allI impI no_more_borrowed_refl no_more_borrowed_log_operation
        no_more_borrowed_book no_more_borrowed_returned no_more_borrowed_status_row;
      simp)


lemma count_borrowed_insert:
  "count_borrowed i (insert_borrow rid bid bd dd n d) =
     count_borrowed i d + (if i = rid then 1 else 0)"
  by (simp add: count_borrowed_def insert_borrow_def)

lemma readers_insert_borrow: "readers (insert_borrow rid bid bd dd n d) = readers d"
  by (simp add: insert_borrow_def)

lemma create_borrow_within_limits:
  assumes inv: "within_limits d" and F: "2 \<notin> F"
  shows "within_limits (snd (create_borrow data today F d))"
proof (cases "fst (create_borrow data today F d)")
  case (Inl e)
  then show ?thesis
    using create_borrow_failure_unchanged [OF Inl] inv by simp
next
  case (Inr p)
  let ?d = "snd (create_borrow data today F d)"
  have "create_borrow data today F d = (Inr p, ?d)"
    using Inr by (simp add: prod_eq_iff)
  then obtain rid bid due r rs where
    r: "execute_query F 0 (select_reader rid d) = Some (r # rs)"
    and lim: "2 \<notin> F \<longrightarrow> count_borrowed rid d < max_borrow_count r"
    and tx: "create_borrow_transaction rid bid today due
          (case req_notes data of None \<Rightarrow> [] | Some s \<Rightarrow> s) F d = (Inr p, ?d)"
    using create_borrow_success [of data today F d p ?d] by blast
  from tx have d: "?d = log_operation F 7 LogCreateBorrow ''borrow'' (next_borrow_id d)
      (update_book_status bid ''borrowed'' (insert_borrow rid bid today due
         (case req_notes data of None \<Rightarrow> [] | Some s \<Rightarrow> s) d))"
    by (simp add: create_borrow_transaction_success)
  have readers: "readers ?d = readers d"
    by (subst d) (simp add: readers_log_operation readers_update_book_status
        readers_insert_borrow)
  have "borrows ?d = borrows (insert_borrow rid bid today due
         (case req_notes data of None \<Rightarrow> [] | Some s \<Rightarrow> s) d)"
    by (subst d) (simp add: borrows_log_operation borrows_update_book_status)
  then have count: "count_borrowed i ?d = count_borrowed i d + (if i = rid then 1 else 0)" for i
    using count_borrowed_cong [of ?d _ i] by (simp add: count_borrowed_insert)
  from r have "select_reader rid d = r # rs"
    by (simp add: execute_query_def split: if_splits)
  then have "r \<in> set (select_reader rid d)"
    by simp
  then have rin: "r \<in> set (readers d)" and rid: "reader_id r = rid"
    by (simp_all add: select_reader_def)
  from inv have dist: "distinct (map reader_id (readers d))"
    and bound: "\<And>x. x \<in> set (readers d) \<Longrightarrow> count_borrowed (reader_id x) d \<le> max_borrow_count x"
    by (simp_all add: within_limits_def limit_inv_def)
  from dist have inj: "inj_on reader_id (set (readers d))"
    by (simp add: distinct_map)
  have "count_borrowed (reader_id x) ?d \<le> max_borrow_count x" if x: "x \<in> set (readers d)" for x
  proof (cases "reader_id x = rid")
    case True
    with rid x rin inj have "x = r"
      by (auto dest: inj_onD)
    with lim F show ?thesis
      by (simp add: count rid)
  next
    case False
    with bound [OF x] show ?thesis
      by (simp add: count)
  qed
  with dist show ?thesis
    by (simp add: within_limits_def limit_inv_def readers)
qed

lemma update_reader_within_limits:
  assumes inv: "within_limits d"
    and m: "\<And>m. upd_max_borrow_count u = Some m \<Longrightarrow> count_borrowed rid d \<le> m"
  shows "within_limits (snd (update_reader rid u F d))"
proof -
  have ids: "map reader_id (readers (update_reader_row rid u d)) = map reader_id (readers d)"
    by (simp add: update_reader_row_def set_fields_def comp_def if_distrib cong: if_cong)
  have cnt: "count_borrowed i (update_reader_row rid u d) = count_borrowed i d" for i
    by (simp add: count_borrowed_def update_reader_row_def)
  from inv have bound:
    "\<And>x. x \<in> set (readers d) \<Longrightarrow> count_borrowed (reader_id x) d \<le> max_borrow_count x"
    by (simp add: within_limits_def limit_inv_def)
  have "count_borrowed (reader_id y) d \<le> max_borrow_count y"
    if "y \<in> set (readers (update_reader_row rid u d))" for y
  proof -
    from that obtain x where x: "x \<in> set (readers d)"
      and y: "y = (if reader_id x = rid then set_fields u x else x)"
      by (auto simp: update_reader_row_def)
    show ?thesis
    proof (cases "reader_id x = rid")
      case True
      then show ?thesis
        using y bound [OF x] m
        by (cases "upd_max_borrow_count u") (simp_all add: set_fields_def)
    next
      case False
      then show ?thesis
        using y bound [OF x] by simp
    qed
  qed
  then have row: "within_limits (update_reader_row rid u d)"
    using inv ids by (simp add: within_limits_def limit_inv_def cnt)
  have log: "within_limits (log_operation F k a ty i x)" if "within_limits x" for k a ty i x
    using that
    by (simp add: within_limits_def limit_inv_def readers_log_operation
        count_borrowed_cong [OF borrows_log_operation])
  show ?thesis
    unfolding update_reader_def
    by (simp split: option.split list.split add: execute_write_def inv row log)
qed


text \<open>
  Claim C5, amended. When the reader ids are distinct and every reader has at most
  \<open>max_borrow_count\<close> borrowed records, this is still so after \<open>create_borrow\<close>
  (when its count query does not fail), \<open>return_book\<close>, \<open>renew_book\<close>,
  \<open>apply_fine\<close>, \<open>update_borrow_status\<close> to a status other than borrowed, and
  \<open>update_reader\<close> when it does not set \<open>max_borrow_count\<close> below the reader's count
  of borrowed records, whatever the other storage calls do.
\<close>

theorem limit_preserved:
  "within_limits d \<longrightarrow>
     (2 \<notin> F \<longrightarrow> within_limits (snd (create_borrow cdata today F d))) \<and>
     within_limits (snd (return_book bid today F d)) \<and>
     within_limits (snd (renew_book bid rdata F d)) \<and>
     within_limits (snd (apply_fine bid fdata F d)) \<and>
     (req_status sdata \<noteq> Some ''borrowed'' \<longrightarrow>
        within_limits (snd (update_borrow_status bid sdata today F d))) \<and>
     ((\<forall>m. upd_max_borrow_count u = Some m \<longrightarrow> count_borrowed rid d \<le> m) \<longrightarrow>
        within_limits (snd (update_reader rid u F d)))"
proof (intro impI conjI)
  assume inv: "within_limits d"
  show "within_limits (snd (create_borrow cdata today F d))" if "2 \<notin> F"
    by (rule create_borrow_within_limits [OF inv that])
  show "within_limits (snd (return_book bid today F d))"
    by (rule within_limits_no_more_borrowed [OF inv return_book_no_more_borrowed])
  show "within_limits (snd (renew_book bid rdata F d))"
    by (rule within_limits_no_more_borrowed [OF inv renew_book_no_more_borrowed])
  show "within_limits (snd (apply_fine bid fdata F d))"
    by (rule within_limits_no_more_borrowed [OF inv apply_fine_no_more_borrowed])
  show "within_limits (snd (update_borrow_status bid sdata today F d))"
    if "req_status sdata \<noteq> Some ''borrowed''"
    by (rule within_limits_no_more_borrowed
        [OF inv update_borrow_status_no_more_borrowed [OF that]])
  show "within_limits (snd (update_reader rid u F d))"
    if "\<forall>m. upd_max_borrow_count u = Some m \<longrightarrow> count_borrowed rid d \<le> m"
    using that by (intro update_reader_within_limits [OF inv]) blast
qed

lemma sample_db_within_limits: "within_limits sample_db"
  by (simp add: within_limits_def limit_inv_def sample_db_def sample_reader_def
      count_borrowed_def sample_borrow_def)

lemma sample_update_reader_lower:
  "update_reader 1 lower_limit {} sample_db =
     (Inr ReaderUpdated,
      log_operation {} 2 LogUpdateReader ''reader'' 1 (update_reader_row 1 lower_limit sample_db))"
  by (simp add: update_reader_def execute_query_def execute_write_def sample_db_reader
      no_fields_def lower_limit_def)

text \<open>
  Claim C5 as stated fails: \<open>update_reader\<close> stores a new \<open>max_borrow_count\<close>
  without looking at the reader's borrowed records. On the sample database, where reader
  1 has one borrowed record, setting the limit of reader 1 to 0 succeeds and leaves the
  reader above its limit.
\<close>

theorem update_reader_breaks_limit:
  "limit_inv sample_db \<and>
   fst (update_reader 1 lower_limit {} sample_db) = Inr ReaderUpdated \<and>
   map max_borrow_count (readers (snd (update_reader 1 lower_limit {} sample_db))) = [0] \<and>
   count_borrowed 1 (snd (update_reader 1 lower_limit {} sample_db)) = 1 \<and>
   \<not> limit_inv (snd (update_reader 1 lower_limit {} sample_db))"
proof -
  let ?d = "snd (update_reader 1 lower_limit {} sample_db)"
  have 1: "limit_inv sample_db"
    using sample_db_within_limits by (simp add: within_limits_def)
  have 2: "fst (update_reader 1 lower_limit {} sample_db) = Inr ReaderUpdated"
    by (simp add: sample_update_reader_lower)
  have "readers ?d = readers (update_reader_row 1 lower_limit sample_db)"
    by (simp add: sample_update_reader_lower readers_log_operation)
  then have r: "readers ?d = [set_fields lower_limit sample_reader]"
    by (simp add: update_reader_row_def sample_db_def sample_reader_fields)
  then have 3: "map max_borrow_count (readers ?d) = [0]"
    by (simp add: set_fields_def lower_limit_def)
  have "borrows ?d = borrows sample_db"
    by (simp add: sample_update_reader_lower borrows_log_operation update_reader_row_def)
  then have "count_borrowed 1 ?d = count_borrowed 1 sample_db"
    by (rule count_borrowed_cong)
  then have 4: "count_borrowed 1 ?d = 1"
    by (simp add: sample_db_count)
  have m: "max_borrow_count (set_fields lower_limit sample_reader) = 0"
    "reader_id (set_fields lower_limit sample_reader) = 1"
    by (simp_all add: set_fields_def lower_limit_def sample_reader_fields)
  have 5: "\<not> limit_inv ?d"
    unfolding limit_inv_def r
    by (simp add: 4 m)
  from 1 2 3 4 5 show ?thesis by blast
qed

theorem limit_preserved_witness:
  "within_limits (snd (create_borrow (sample_request 1 14) 738905 {} sample_db)) \<and>
   within_limits (snd (return_book 5 738905 {} sample_db)) \<and>
   within_limits (snd (renew_book 5 \<lparr>req_days = Some (JInt 30)\<rparr> {} sample_db)) \<and>
   within_limits (snd (apply_fine 5 \<lparr>req_fine_amount = Some (JInt 10)\<rparr> {} sample_db)) \<and>
   within_limits (snd (update_borrow_status 5 \<lparr>req_status = Some ''lost''\<rparr> 738905 {} sample_db)) \<and>
   within_limits (snd (update_reader 1 raise_limit {} sample_db))"
proof -
  note t = limit_preserved [where d = sample_db and F = "{}" and today = 738905 and bid = 5
      and cdata = "sample_request 1 14" and rdata = "\<lparr>req_days = Some (JInt 30)\<rparr>"
      and fdata = "\<lparr>req_fine_amount = Some (JInt 10)\<rparr>"
      and sdata = "\<lparr>req_status = Some ''lost''\<rparr>" and u = raise_limit and rid = 1,
      THEN mp, OF sample_db_within_limits]
  have 1: "within_limits (snd (create_borrow (sample_request 1 14) 738905 {} sample_db))"
    by (rule t [THEN conjunct1, THEN mp]) simp
  have 5: "within_limits
      (snd (update_borrow_status 5 \<lparr>req_status = Some ''lost''\<rparr> 738905 {} sample_db))"
    by (rule t [THEN conjunct2, THEN conjunct2, THEN conjunct2, THEN conjunct2,
          THEN conjunct1, THEN mp]) simp
  have 6: "within_limits (snd (update_reader 1 raise_limit {} sample_db))"
    by (rule t [THEN conjunct2, THEN conjunct2, THEN conjunct2, THEN conjunct2,
          THEN conjunct2, THEN mp]) (simp add: raise_limit_def sample_db_count)
  from 1 t [THEN conjunct2, THEN conjunct1]
    t [THEN conjunct2, THEN conjunct2, THEN conjunct1]
    t [THEN conjunct2, THEN conjunct2, THEN conjunct2, THEN conjunct1] 5 6
  show ?thesis by blast
qed

subsection \<open>Storage calls whose failure the handlers do not see\<close>

lemma create_borrow_count_query_fails:
  assumes "req_reader_id data = Some rid" and "req_book_id data = Some bid"
    and "req_borrow_days data = Some (JInt n)"
    and "select_reader rid d = r # rs" and "reader_status r = ''active''"
    and "select_book bid d = b # bs"
    and "book_status b \<noteq> ''lost''" and "book_status b \<noteq> ''borrowed''"
    and "0 \<notin> F" and "1 \<notin> F" and "2 \<in> F"
    and "- 999999999 \<le> n" and "n \<le> 999999999"
    and "date_min \<le> today + n" and "today + n \<le> date_max"
  shows "create_borrow data today F d =
           create_borrow_transaction rid bid today (today + n)
             (case req_notes data of None \<Rightarrow> [] | Some s \<Rightarrow> s) F d"
  using assms
  by (simp add: create_borrow_def execute_query_def timedelta_def date_add_def)

lemma limit_db_create_borrow:
  "create_borrow (sample_request 1 14) 738905 {2} limit_db =
     (Inr (Created 6),
      log_operation {2} 7 LogCreateBorrow ''borrow'' 6
        (update_book_status 1 ''borrowed'' (insert_borrow 1 1 738905 738919 [] limit_db)))"
proof -
  have "create_borrow (sample_request 1 14) 738905 {2} limit_db =
      create_borrow_transaction 1 1 738905 (738905 + 14)
        (case req_notes (sample_request 1 14) of None \<Rightarrow> [] | Some s \<Rightarrow> s) {2} limit_db"
  proof (rule create_borrow_count_query_fails [OF sample_request_fields(1-3)])
    show "select_reader 1 limit_db = sample_reader # []"
      by (rule limit_db_facts(1))
    show "select_book 1 limit_db = \<lparr>book_id = 1, book_status = ''available''\<rparr> # []"
      by (rule limit_db_facts(2))
  qed (simp_all add: sample_reader_fields date_min_def date_max_def)
  also have "\<dots> = (Inr (Created 6),
      log_operation {2} 7 LogCreateBorrow ''borrow'' 6
        (update_book_status 1 ''borrowed'' (insert_borrow 1 1 738905 738919 [] limit_db)))"
    by (simp add: create_borrow_transaction_def Let_def sample_request_fields)
       (simp add: limit_db_def sample_db_def)
  finally show ?thesis .
qed

text \<open>
  Claim C2. The limit rule is not applied when the count query fails. In the database
  \<open>limit_db\<close> reader 1 is active with a limit of 3 and has 3 borrowed records, and the
  handler rejects the request with the limit error when its reads succeed. When the
  count query (storage call 2) fails, the same request for the available book 1 is
  answered with the new identifier 6 and the reader has 4 borrowed records.
\<close>

theorem create_borrow_limit_skipped:
  "count_borrowed 1 limit_db = 3 \<and>
   map max_borrow_count (select_reader 1 limit_db) = [3] \<and>
   create_borrow (sample_request 1 14) 738905 {} limit_db =
     (Inl (400, BorrowLimitReached), limit_db) \<and>
   fst (create_borrow (sample_request 1 14) 738905 {2} limit_db) = Inr (Created 6) \<and>
   count_borrowed 1 (snd (create_borrow (sample_request 1 14) 738905 {2} limit_db)) = 4"
proof -
  have 2: "map max_borrow_count (select_reader 1 limit_db) = [3]"
    by (simp add: limit_db_facts sample_reader_fields)
  have 3: "create_borrow (sample_request 1 14) 738905 {} limit_db =
     (Inl (400, BorrowLimitReached), limit_db)"
  proof (rule create_borrow_limit [OF sample_request_fields(1-3)])
    show "select_reader 1 limit_db = sample_reader # []"
      by (rule limit_db_facts(1))
    show "select_book 1 limit_db = \<lparr>book_id = 1, book_status = ''available''\<rparr> # []"
      by (rule limit_db_facts(2))
    show "\<not> count_borrowed 1 limit_db < max_borrow_count sample_reader"
      by (simp add: limit_db_facts sample_reader_fields)
  qed (simp_all add: sample_reader_fields)
  have 4: "fst (create_borrow (sample_request 1 14) 738905 {2} limit_db) = Inr (Created 6)"
    by (simp add: limit_db_create_borrow)
  have "borrows (snd (create_borrow (sample_request 1 14) 738905 {2} limit_db)) =
      borrows (insert_borrow 1 1 738905 738919 [] limit_db)"
    by (simp add: limit_db_create_borrow borrows_log_operation borrows_update_book_status)
  then have "count_borrowed 1 (snd (create_borrow (sample_request 1 14) 738905 {2} limit_db)) =
      count_borrowed 1 (insert_borrow 1 1 738905 738919 [] limit_db)"
    by (rule count_borrowed_cong)
  then have 5: "count_borrowed 1
      (snd (create_borrow (sample_request 1 14) 738905 {2} limit_db)) = 4"
    by (simp add: count_borrowed_insert limit_db_facts)
  from limit_db_facts(3) 2 3 4 5 show ?thesis by blast
qed

lemma sample_renew_book_update_fails:
  "renew_book 5 \<lparr>req_days = Some (JInt 30)\<rparr> {1} sample_db =
     (Inr (Renewed 738925 30), log_operation {1} 2 LogRenewBook ''borrow'' 5 sample_db)"
proof -
  have "renew_book 5 \<lparr>req_days = Some (JInt 30)\<rparr> {1} sample_db =
     (Inr (Renewed (due_date sample_borrow + 30) 30),
      log_operation {1} 2 LogRenewBook ''borrow'' 5
        (snd (execute_write {1} 1
           (update_borrow_renewed 5 (due_date sample_borrow + 30)) sample_db)))"
  proof (rule renew_book_present [OF sample_renew_days])
    show "select_borrowed 5 sample_db = sample_borrow # []"
      by (rule sample_select_borrowed)
    show "renew_count sample_borrow = Some 0"
      by (rule sample_borrow_fields(1))
  qed (simp_all add: sample_borrow_fields date_min_def date_max_def)
  then show ?thesis
    by (simp add: execute_write_def sample_borrow_fields)
qed

text \<open>
  Claim C4. \<open>renew_book\<close> does not look at the result of its update. On the sample
  database, where record 5 is due on 738895 and was never renewed, a renewal by 30 days
  whose update (storage call 1) fails is answered with success and the new due date
  738925, and record 5 still has the due date 738895 and the renewal count 0.
\<close>

theorem renew_book_update_lost:
  "fst (renew_book 5 \<lparr>req_days = Some (JInt 30)\<rparr> {1} sample_db) = Inr (Renewed 738925 30) \<and>
   map (\<lambda>b. (due_date b, renew_count b))
     (select_borrowed 5 (snd (renew_book 5 \<lparr>req_days = Some (JInt 30)\<rparr> {1} sample_db)))
     = [(738895, Some 0)]"
proof -
  have 1: "fst (renew_book 5 \<lparr>req_days = Some (JInt 30)\<rparr> {1} sample_db) =
      Inr (Renewed 738925 30)"
    by (subst sample_renew_book_update_fails) simp
  have "borrows (snd (renew_book 5 \<lparr>req_days = Some (JInt 30)\<rparr> {1} sample_db)) =
      borrows sample_db"
    by (subst sample_renew_book_update_fails) (simp add: borrows_log_operation)
  then have "select_borrowed 5 (snd (renew_book 5 \<lparr>req_days = Some (JInt 30)\<rparr> {1} sample_db)) =
      select_borrowed 5 sample_db"
    by (rule select_borrowed_cong)
  then have 2: "map (\<lambda>b. (due_date b, renew_count b))
     (select_borrowed 5 (snd (renew_book 5 \<lparr>req_days = Some (JInt 30)\<rparr> {1} sample_db)))
     = [(738895, Some 0)]"
    by (simp add: sample_select_borrowed sample_borrow_fields)
  from 1 2 show ?thesis by blast
qed

lemma sample_return_book_update_fails:
  "return_book 5 738905 {1} sample_db =
     (Inr Returned,
      log_operation {1} 3 LogReturnBook ''borrow'' 5
        (update_book_status 2 ''available'' sample_db))"
proof -
  have "(0::nat) \<notin> {1}" by simp
  from return_book_present [OF sample_select_borrowed this, of 738905]
  show ?thesis by (simp add: execute_write_def sample_borrow_def)
qed

text \<open>
  Claim C7. A second \<open>return_book\<close> can succeed. On the sample database, when the
  update of the record (storage call 1) fails, the first call for record 5 is answered
  with success, record 5 still has status borrowed, and a second call for record 5, with
  no failing storage call, is answered with success again.
\<close>

theorem return_book_succeeds_twice:
  "fst (return_book 5 738905 {1} sample_db) = Inr Returned \<and>
   map borrow_status (select_borrow 5 (snd (return_book 5 738905 {1} sample_db))) =
     [''borrowed''] \<and>
   fst (return_book 5 738906 {} (snd (return_book 5 738905 {1} sample_db))) = Inr Returned"
proof -
  let ?d = "snd (return_book 5 738905 {1} sample_db)"
  have 1: "fst (return_book 5 738905 {1} sample_db) = Inr Returned"
    by (subst sample_return_book_update_fails) simp
  have b: "borrows ?d = borrows sample_db"
    by (subst sample_return_book_update_fails)
       (simp add: borrows_log_operation borrows_update_book_status)
  have "select_borrow 5 ?d = select_borrow 5 sample_db"
    using b by (rule select_borrow_cong)
  then have 2: "map borrow_status (select_borrow 5 ?d) = [''borrowed'']"
    by (simp add: sample_select_borrow sample_borrow_def)
  have "select_borrowed 5 ?d = select_borrowed 5 sample_db"
    using b by (rule select_borrowed_cong)
  then have "select_borrowed 5 ?d = sample_borrow # []"
    by (simp add: sample_select_borrowed)
  then have 3: "fst (return_book 5 738906 {} ?d) = Inr Returned"
    by (simp add: return_book_present)
  from 1 2 3 show ?thesis by blast
qed

end
